theory Spec2Isabelle
  imports Complex_Main "HOL-Library.Log_Nat"
begin

section \<open>Errors and JavaScript values\<close>

text \<open>
  The error classes of \<open>middleware/errorHandler\<close> that the services throw, each with its
  message. \<open>JsError\<close> is a plain \<open>Error\<close> (a failed upload, a failed database statement),
  \<open>SyntaxError\<close> and \<open>TypeError\<close> are the built-in errors of \<open>JSON.parse\<close> and of a
  property access on \<open>null\<close>.
\<close>

datatype error =
    ValidationError string
  | ConflictError string
  | NotFoundError string
  | ForbiddenError string
  | GoneError string
  | JsError string
  | SyntaxError
  | TypeError

text \<open>
  What \<open>gridSizes[difficulty] || 16\<close> can evaluate to: a number, or a member that the
  object literal inherits from \<open>Object.prototype\<close> (a function, or the prototype itself
  for \<open>__proto__\<close>), named by its key.
\<close>

datatype js_value = JNum int | JProtoMember string

datatype log_entry =
    LogInfo string
  | LogError string error

section \<open>TaskService.getGridSizeFromDifficulty\<close>

definition gridSizes :: "(string \<times> int) list" where
  "gridSizes = [(''easy'', 9), (''medium'', 16), (''hard'', 25), (''expert'', 25)]"

text \<open>The property names every object literal inherits from \<open>Object.prototype\<close>.\<close>

definition object_prototype_keys :: "string list" where
  "object_prototype_keys =
     [''constructor'', ''__defineGetter__'', ''__defineSetter__'', ''hasOwnProperty'',
      ''__lookupGetter__'', ''__lookupSetter__'', ''isPrototypeOf'', ''propertyIsEnumerable'',
      ''toString'', ''valueOf'', ''__proto__'', ''toLocaleString'']"

text \<open>
  \<open>return gridSizes[difficulty] || 16\<close>: an own property wins, then the prototype chain;
  every inherited member is truthy, so \<open>||\<close> keeps it; a missing property is
  \<open>undefined\<close> and gives 16.
\<close>

definition getGridSizeFromDifficulty :: "string \<Rightarrow> js_value" where
  "getGridSizeFromDifficulty difficulty =
     (case map_of gridSizes difficulty of
        Some n \<Rightarrow> if n \<noteq> 0 then JNum n else JNum 16
      | None \<Rightarrow>
          if difficulty \<in> set object_prototype_keys then JProtoMember difficulty
          else JNum 16)"

section \<open>PuzzleGenerator\<close>

record piece =
  index :: nat
  hash :: string
  row :: nat
  col :: nat

record piece_ref =
  ref_index :: nat
  ref_hash :: string

record PuzzleConfig =
  image_url :: string
  grid_size :: nat
  piece_count :: int
  pieces :: "piece_ref list"
  shuffled_order :: "nat list"
  difficulty_seed :: string
  correct_solution :: "nat list"
  created_at :: string
  expires_at :: string

text \<open>
  What the generator takes from outside the repository: the buffer and \<open>sharp\<close>, the
  object store, \<open>uuid\<close>, \<open>crypto\<close>, \<open>Math.random\<close> and the clock. The calls of \<open>sharp\<close>
  return Promises. \<open>sharp_metadata\<close> is the Promise of \<open>sharp(buffer).metadata()\<close>, with
  what it settles to; \<open>sharp_resize\<close> is the error of the awaited resize to 400 by 400
  when that is rejected; \<open>sharp_extract r c\<close> is the outcome of the awaited extraction of
  the region at row \<open>r\<close>, column \<open>c\<close>, followed by the SHA-256 digest of the piece: the
  digest, or the error the extraction is rejected with. \<open>random_number i\<close> stands for the
  draw of \<open>Math.random()\<close> at step \<open>i\<close> of the shuffle, from which
  \<open>Math.floor(Math.random() * (i + 1))\<close> is an index in \<open>0..i\<close>; \<open>toISOString\<close> prints a
  time (in milliseconds) as \<open>Date.prototype.toISOString\<close> does.
\<close>

record metadata =
  format :: string
  width :: int
  height :: int

datatype 'a promise = Promise "error + 'a"

record gen_env =
  buffer_length :: nat
  sharp_metadata :: "metadata promise"
  sharp_resize :: "error option"
  sharp_extract :: "nat \<Rightarrow> nat \<Rightarrow> error + string"
  s3_upload_ok :: bool
  uuid :: string
  random_number :: "nat \<Rightarrow> nat"
  cdnUrl :: string
  now :: int
  toISOString :: "int \<Rightarrow> string"

text \<open>The effects of the generator: the log and the keys put into the object store.\<close>

record world =
  logs :: "log_entry list"
  s3_keys :: "string list"

text \<open>
  Reading a property of a Promise. The object has no property of its own; \<open>then\<close>,
  \<open>catch\<close> and \<open>finally\<close> come from \<open>Promise.prototype\<close> and the rest of the chain is
  \<open>Object.prototype\<close>; every other name reads as \<open>undefined\<close>, whatever the Promise
  settles to.
\<close>

datatype property = Undefined | Inherited string

definition promise_property :: "'a promise \<Rightarrow> string \<Rightarrow> property" where
  "promise_property p key =
     (if key \<in> set ([''then'', ''catch'', ''finally''] @ object_prototype_keys)
      then Inherited key else Undefined)"

text \<open>
  \<open>supportedFormats.includes(v)\<close> and \<open>v > 0\<close> for such a value: neither \<open>undefined\<close> nor a
  function is an element of an array of strings, and both compare with 0 as \<open>NaN\<close>.
\<close>

definition array_includes :: "string list \<Rightarrow> property \<Rightarrow> bool" where
  "array_includes array v = (case v of Undefined \<Rightarrow> False | Inherited k \<Rightarrow> False)"

definition greater_zero :: "property \<Rightarrow> bool" where
  "greater_zero v = (case v of Undefined \<Rightarrow> False | Inherited k \<Rightarrow> False)"

text \<open>
  \<open>isValidImage\<close> is not an \<open>async\<close> method and does not await \<open>metadata()\<close>: its
  \<open>metadata\<close> is the Promise, and \<open>format\<close>, \<open>width\<close> and \<open>height\<close> are read from that. The
  argument is a \<open>Buffer\<close> (\<open>createTask\<close> passes \<open>Buffer.from(image_file, 'base64')\<close>); the
  \<open>catch\<close> clause returns \<open>false\<close> too.
\<close>

definition isValidImage :: "gen_env \<Rightarrow> bool" where
  "isValidImage env =
     (if buffer_length env = 0 \<or> buffer_length env > 5000000 then False
      else (let metadata = sharp_metadata env
            in array_includes [''jpeg'', ''png'', ''webp''] (promise_property metadata ''format'') \<and>
               greater_zero (promise_property metadata ''width'') \<and>
               greater_zero (promise_property metadata ''height'')))"

definition uploadToS3 :: "gen_env \<Rightarrow> string \<Rightarrow> world \<Rightarrow> (error + unit) \<times> world" where
  "uploadToS3 env key w =
     (if s3_upload_ok env then (Inr (), w\<lparr>s3_keys := s3_keys w @ [key]\<rparr>)
      else (Inl (JsError ''Failed to upload image to storage''),
            w\<lparr>logs := logs w @ [LogError ''S3 upload failed:'' (JsError ''upload'')]\<rparr>))"

text \<open>
  \<open>Math.sqrt\<close> on the grid sizes that pass the guard: the largest \<open>k\<close> with
  \<open>k * k \<le> n\<close>, which is the exact root of a perfect square.
\<close>

definition math_sqrt :: "nat \<Rightarrow> nat" where
  "math_sqrt n = length (takeWhile (\<lambda>k. k * k \<le> n) [1..<Suc n])"

text \<open>
  The two nested \<open>for\<close> loops: rows outside, columns inside. \<open>grid_cells\<close> lists the cells
  in the order the loops visit them; \<open>slice_cells\<close> cuts one piece per cell and pushes it,
  and the first extraction that is rejected ends the loops with its error.
\<close>

definition grid_cells :: "nat \<Rightarrow> (nat \<times> nat) list" where
  "grid_cells piecesPerSide =
     concat (map (\<lambda>r. map (\<lambda>c. (r, c)) [0..<piecesPerSide]) [0..<piecesPerSide])"

fun slice_cells :: "gen_env \<Rightarrow> nat \<Rightarrow> (nat \<times> nat) list \<Rightarrow> error + piece list" where
  "slice_cells env piecesPerSide [] = Inr []"
| "slice_cells env piecesPerSide ((r, c) # cells) =
     (case sharp_extract env r c of
        Inl e \<Rightarrow> Inl e
      | Inr pieceHash \<Rightarrow>
          (case slice_cells env piecesPerSide cells of
             Inl e \<Rightarrow> Inl e
           | Inr ps \<Rightarrow>
               Inr (\<lparr>index = r * piecesPerSide + c, hash = pieceHash, row = r, col = c\<rparr> # ps)))"

definition extract_pieces :: "gen_env \<Rightarrow> nat \<Rightarrow> error + piece list" where
  "extract_pieces env piecesPerSide = slice_cells env piecesPerSide (grid_cells piecesPerSide)"

text \<open>
  Fisher-Yates, \<open>for (let i = shuffled.length - 1; i > 0; i--)\<close>: \<open>shuffle_from i\<close> runs the
  iterations \<open>i, i - 1, ..., 1\<close>.
\<close>

fun shuffle_from :: "(nat \<Rightarrow> nat) \<Rightarrow> nat \<Rightarrow> nat list \<Rightarrow> nat list" where
  "shuffle_from rnd 0 xs = xs"
| "shuffle_from rnd (Suc i) xs =
     (let j = rnd (Suc i) mod (Suc i + 1)
      in shuffle_from rnd i (xs[Suc i := xs ! j, j := xs ! Suc i]))"

definition shuffleArray :: "(nat \<Rightarrow> nat) \<Rightarrow> nat list \<Rightarrow> nat list" where
  "shuffleArray rnd array = shuffle_from rnd (length array - 1) array"

text \<open>
  \<open>calculateDifficulty\<close>, given the number of piece buffers. It does not await
  \<open>toBuffer\<close>: for the first buffer \<open>data\<close> is destructured from the Promise and is
  \<open>undefined\<close>, reading \<open>data.length\<close> throws a \<open>TypeError\<close>, and the \<open>catch\<close> clause logs it
  and returns \<open>medium\<close>. Without a buffer the loop does not run, the average is \<open>0 / 0\<close>, no
  comparison with \<open>NaN\<close> holds, and the result is \<open>hard\<close>.
\<close>

definition calculateDifficulty :: "nat \<Rightarrow> world \<Rightarrow> string \<times> world" where
  "calculateDifficulty pieceBuffers w =
     (if pieceBuffers = 0 then (''hard'', w)
      else (''medium'', w\<lparr>logs := logs w @ [LogError ''Difficulty calculation failed:'' TypeError]\<rparr>))"

text \<open>The object literal \<open>puzzleConfig\<close>.\<close>

definition build_config :: "gen_env \<Rightarrow> int \<Rightarrow> string \<Rightarrow> piece list \<Rightarrow> string \<Rightarrow> PuzzleConfig" where
  "build_config env g imageKey ps difficulty =
     \<lparr>image_url = cdnUrl env @ ''/'' @ imageKey,
      grid_size = math_sqrt (nat g),
      piece_count = g,
      pieces = map (\<lambda>p. \<lparr>ref_index = index p, ref_hash = hash p\<rparr>) ps,
      shuffled_order = shuffleArray (random_number env) [0..<nat g],
      difficulty_seed = difficulty,
      correct_solution = map index ps,
      created_at = toISOString env (now env),
      expires_at = toISOString env (now env + 24 * 60 * 60 * 1000)\<rparr>"

text \<open>
  The \<open>try\<close> block of \<open>generateImagePuzzle\<close> after its two checks, for a grid size \<open>g\<close> that
  passed the first: the resize, the upload of the original, the slicing, the
  difficulty, the configuration. An awaited call that is rejected throws its error.
\<close>

definition slice_and_build :: "gen_env \<Rightarrow> int \<Rightarrow> world \<Rightarrow> (error + PuzzleConfig) \<times> world" where
  "slice_and_build env g w =
     (let w1 = w\<lparr>logs := logs w @ [LogInfo ''Generating puzzle'']\<rparr>;
          imageKey = ''puzzles/'' @ uuid env @ ''-original.jpg''
      in (case sharp_resize env of
            Some e \<Rightarrow> (Inl e, w1)
          | None \<Rightarrow>
              (case uploadToS3 env imageKey w1 of
                 (Inl e, w2) \<Rightarrow> (Inl e, w2)
               | (Inr u, w2) \<Rightarrow>
                   (case extract_pieces env (math_sqrt (nat g)) of
                      Inl e \<Rightarrow> (Inl e, w2)
                    | Inr ps \<Rightarrow>
                        (case calculateDifficulty (length ps) w2 of
                           (difficulty, w3) \<Rightarrow>
                             (Inr (build_config env g imageKey ps difficulty),
                              w3\<lparr>logs := logs w3 @ [LogInfo ''Puzzle generated successfully'']\<rparr>))))))"

text \<open>
  The whole \<open>try\<close> block. \<open>[9, 16, 25].includes(gridSize)\<close> holds for the three numbers
  only. The grid size is always given (the default of the parameter is for a call
  without it, and \<open>createTask\<close> passes one).
\<close>

definition generate_body ::
  "gen_env \<Rightarrow> js_value \<Rightarrow> world \<Rightarrow> (error + PuzzleConfig) \<times> world" where
  "generate_body env gridSize w =
     (case gridSize of
        JProtoMember k \<Rightarrow> (Inl (ValidationError ''Grid size must be 9, 16, or 25''), w)
      | JNum g \<Rightarrow>
          (if g \<notin> {9, 16, 25} then
             (Inl (ValidationError ''Grid size must be 9, 16, or 25''), w)
           else if \<not> isValidImage env then
             (Inl (ValidationError ''Invalid image format. Must be JPEG/PNG and < 5MB''), w)
           else slice_and_build env g w))"

text \<open>The \<open>catch\<close> clause logs the error and throws it again.\<close>

definition generateImagePuzzle ::
  "gen_env \<Rightarrow> js_value \<Rightarrow> world \<Rightarrow> (error + PuzzleConfig) \<times> world" where
  "generateImagePuzzle env gridSize w =
     (case generate_body env gridSize w of
        (Inl e, w') \<Rightarrow> (Inl e, w'\<lparr>logs := logs w' @ [LogError ''Puzzle generation failed:'' e]\<rparr>)
      | (Inr c, w') \<Rightarrow> (Inr c, w'))"

section \<open>Numbers: double-precision arithmetic\<close>

text \<open>
  A JavaScript number is an IEEE 754 double, and every arithmetic operation returns the
  double nearest to the exact result, a tie going to the even significand. Values are
  rationals here; \<open>fl x\<close> is the double nearest to \<open>x\<close>, with a significand of 53 bits.
  The range of the exponent is not bounded: overflow and subnormal numbers are out of
  the model. \<open>expo x\<close> is the exponent of a positive \<open>x\<close>, the \<open>e\<close> with
  \<open>2 ^ e \<le> x < 2 ^ (e + 1)\<close>.
\<close>

definition round_even :: "rat \<Rightarrow> int" where
  "round_even x =
     (let f = \<lfloor>x\<rfloor>; d = x - of_int f
      in if d < 1 / 2 then f
         else if 1 / 2 < d then f + 1
         else if even f then f else f + 1)"

definition expo :: "rat \<Rightarrow> int" where
  "expo x = (if 1 \<le> x then bitlen \<lfloor>x\<rfloor> - 1 else - bitlen (\<lceil>1 / x\<rceil> - 1))"

definition fl :: "rat \<Rightarrow> rat" where
  "fl x =
     (if x = 0 then 0
      else (let u = 2 powi (expo \<bar>x\<bar> - 52)
            in of_int (round_even (x / u)) * u))"

section \<open>PuzzleGenerator.validateSolution\<close>

text \<open>
  An argument is an array of piece indices, or something \<open>Array.isArray\<close> rejects.
\<close>

datatype solution = JsArray "int list" | NotArray

text \<open>\<open>JSON.stringify\<close> on an array of integers.\<close>

definition digit10 :: "nat \<Rightarrow> char" where
  "digit10 d = char_of (48 + d)"

fun string_of_nat :: "nat \<Rightarrow> string" where
  "string_of_nat n =
     (if n < 10 then [digit10 n] else string_of_nat (n div 10) @ [digit10 (n mod 10)])"

definition string_of_int :: "int \<Rightarrow> string" where
  "string_of_int i = (if i < 0 then CHR ''-'' # string_of_nat (nat (- i)) else string_of_nat (nat i))"

fun join_comma :: "string list \<Rightarrow> string" where
  "join_comma [] = []"
| "join_comma [x] = x"
| "join_comma (x # y # ys) = x @ CHR '','' # join_comma (y # ys)"

definition JSON_stringify :: "int list \<Rightarrow> string" where
  "JSON_stringify xs = CHR ''['' # join_comma (map string_of_int xs) @ [CHR '']'']"

record validation =
  is_correct :: bool
  score :: int
  base_score :: "int option"
  time_bonus :: int
  validated_seconds :: "rat option"
  validation_error :: "string option"

text \<open>
  The score of a correct ordering. \<open>timeTaken\<close> is a whole number of milliseconds (below
  \<open>2 ^ 53\<close> every such number is a double); each operation of the source is followed by
  its rounding: \<open>timeTaken / 1000\<close>, \<open>maxTimeSeconds - timeTakenSeconds\<close>, the division by
  \<open>maxTimeSeconds\<close>, and \<open>timeRatio * 50\<close>. In the result, \<open>validated_seconds\<close> is the
  field \<open>time_taken_seconds\<close> and \<open>validation_error\<close> the field \<open>error\<close>; what the function
  writes to the log is left out.
\<close>

definition timeTakenSeconds :: "int \<Rightarrow> rat" where
  "timeTakenSeconds timeTaken = fl (of_int timeTaken / 1000)"

definition timeRatio :: "int \<Rightarrow> rat" where
  "timeRatio timeTaken = max 0 (fl (fl (300 - timeTakenSeconds timeTaken) / 300))"

definition timeBonus :: "int \<Rightarrow> int" where
  "timeBonus timeTaken = \<lfloor>fl (timeRatio timeTaken * 50)\<rfloor>"

definition validateSolution :: "solution \<Rightarrow> solution \<Rightarrow> int \<Rightarrow> error + validation" where
  "validateSolution userSolution correctSolution timeTaken =
     (case (userSolution, correctSolution) of
        (JsArray us, JsArray cs) \<Rightarrow>
          (if length us \<noteq> length cs
           then Inl (ValidationError ''Solution arrays must have same length'')
           else if JSON_stringify us \<noteq> JSON_stringify cs
           then Inr \<lparr>is_correct = False, score = 0, base_score = None, time_bonus = 0,
                      validated_seconds = None,
                      validation_error = Some ''Puzzle arrangement is incorrect''\<rparr>
           else Inr \<lparr>is_correct = True, score = 100 + timeBonus timeTaken,
                      base_score = Some 100, time_bonus = timeBonus timeTaken,
                      validated_seconds = Some (timeTakenSeconds timeTaken),
                      validation_error = None\<rparr>)
      | _ \<Rightarrow> Inl (ValidationError ''Invalid solution format''))"

text \<open>
  The bonus as the specification writes it, in exact arithmetic: the floor of
  \<open>50 * max 0 ((300 - elapsed_seconds) / 300)\<close>, with the elapsed time in milliseconds.
  It is not taken from the code; it is what \<open>timeBonus\<close> is compared with.
\<close>

definition bonus_formula :: "int \<Rightarrow> int" where
  "bonus_formula t = \<lfloor>50 * max 0 ((300 - of_int t / 1000) / 300 :: rat)\<rfloor>"

section \<open>The relational store and the cache\<close>

text \<open>
  JavaScript values as far as a task's \<open>puzzle_config\<close> needs them: what \<open>JSON.parse\<close>
  returns, and what the driver or the cache hands back for the column. An object is the
  list of its own properties.
\<close>

datatype json =
    JsonNull
  | JsonBool bool
  | JsonNumber int
  | JsonString string
  | JsonArray "json list"
  | JsonObject "(string \<times> json) list"

text \<open>The tables of the schema, with the columns the services read and write.\<close>

record user =
  user_id :: string
  email :: string

record company_profile =
  cp_user_id :: string
  cp_company_name :: string

record task =
  task_id :: string
  company_id :: string
  title :: string
  description :: "string option"
  task_type :: string
  difficulty :: string
  reward_type :: string
  reward_value :: rat
  reward_description :: string
  task_image_url :: "string option"
  puzzle_config :: json
  status :: string
  attempt_count :: int
  conversion_count :: int
  task_expires_at :: "int option"

record attempt =
  attempt_id :: string
  attempt_task_id :: string
  attempt_user_id :: string
  started_at :: int
  completed_at :: int
  time_taken_seconds :: int
  is_successful :: bool
  difficulty_multiplier :: rat

record reward =
  reward_id :: string
  reward_user_id :: string
  reward_task_id :: string
  reward_code :: string
  granted_type :: string
  granted_value :: rat
  is_redeemed :: bool
  redeemed_at :: "int option"
  reward_expires_at :: int

record database =
  users :: "user list"
  company_profiles :: "company_profile list"
  tasks :: "task list"
  task_attempts :: "attempt list"
  user_rewards :: "reward list"

text \<open>
  A task object as \<open>getTask\<close> passes it around: the row, the columns its query adds and
  the \<open>user_attempt\<close> property it sets (\<open>None\<close> for \<open>null\<close> or for a property never set).
\<close>

record task_object = task +
  company_email :: "string option"
  company_name :: "string option"
  total_attempts :: "int option"
  successful_attempts :: "int option"
  user_attempt :: "attempt option"

text \<open>
  The state the services work on. The cache maps a key to the object it holds; its
  expiry and eviction only remove entries. Times are milliseconds since the epoch.
  \<open>history\<close> lists the states of the database in the order they were committed: a
  statement sent through \<open>query\<close> runs on the pool outside any transaction, so it commits
  by itself and other connections see its result at once.
\<close>

record system =
  db :: database
  history :: "database list"
  cache :: "string \<rightharpoonup> task_object"
  outside :: world

definition commit :: "database \<Rightarrow> system \<Rightarrow> system" where
  "commit d s = s\<lparr>db := d, history := history s @ [d]\<rparr>"

definition task_key :: "string \<Rightarrow> string" where
  "task_key taskId = ''task:'' @ taskId"

definition plain_object :: "task \<Rightarrow> task_object" where
  "plain_object t =
     task.extend t
       (task_object.fields None None None None None)"

section \<open>TaskService.validateTaskData and createTask\<close>

record task_data =
  data_title :: "string option"
  data_description :: "string option"
  data_task_type :: string
  data_difficulty :: string
  data_reward_type :: string
  data_reward_value :: "rat option"
  data_reward_description :: "string option"
  data_image_file :: "string option"

text \<open>
  \<open>data_reward_value\<close> is what \<open>parseFloat(reward_value)\<close> gives, \<open>None\<close> for \<open>NaN\<close>. An
  absent property is \<open>None\<close>. \<open>String.prototype.trim\<close> on ASCII white space:
\<close>

definition is_space :: "char \<Rightarrow> bool" where
  "is_space c = (c \<in> set [CHR '' '', CHR 0x09, CHR 0x0A, CHR 0x0B, CHR 0x0C, CHR 0x0D])"

definition trim :: "string \<Rightarrow> string" where
  "trim s = rev (dropWhile is_space (rev (dropWhile is_space s)))"

definition lower_char :: "char \<Rightarrow> char" where
  "lower_char c =
     (let n = (of_char c :: nat) in if 65 \<le> n \<and> n \<le> 90 then char_of (n + 32) else c)"

definition LOWER :: "string \<Rightarrow> string" where
  "LOWER s = map lower_char s"

text \<open>
  \<open>max_env\<close> is \<open>parseFloat(process.env.MAX_TASK_REWARD_VALUE)\<close>; \<open>NaN\<close> and 0 are falsy.
  The checks of \<open>validateTaskData\<close> follow in the order of the source; the message about
  the maximum is written without the number the source prints in it.
\<close>

definition maxReward :: "rat option \<Rightarrow> rat" where
  "maxReward max_env = (case max_env of None \<Rightarrow> 10000 | Some v \<Rightarrow> if v = 0 then 10000 else v)"

definition validateTaskData :: "rat option \<Rightarrow> task_data \<Rightarrow> error + unit" where
  "validateTaskData max_env taskData =
     (if (case data_title taskData of
            None \<Rightarrow> True
          | Some t \<Rightarrow> t = [] \<or> length (trim t) < 3 \<or> length (trim t) > 100)
      then Inl (ValidationError ''Title must be between 3 and 100 characters'')
      else if (case data_description taskData of
                 None \<Rightarrow> False
               | Some d \<Rightarrow> d \<noteq> [] \<and> length d > 1000)
      then Inl (ValidationError ''Description must be less than 1000 characters'')
      else if data_task_type taskData \<notin>
                set [''image-puzzle'', ''spot-diff'', ''speed-challenge'', ''meme'', ''logic'']
      then Inl (ValidationError ''Invalid task type'')
      else if data_difficulty taskData \<notin> set [''easy'', ''medium'', ''hard'', ''expert'']
      then Inl (ValidationError ''Invalid difficulty level'')
      else if data_reward_type taskData \<notin> set [''discount'', ''coupon'', ''points'', ''cashback'']
      then Inl (ValidationError ''Invalid reward type'')
      else if (case data_reward_value taskData of None \<Rightarrow> True | Some v \<Rightarrow> v \<le> 0)
      then Inl (ValidationError ''Reward value must be a positive number'')
      else if (case data_reward_value taskData of
                 None \<Rightarrow> False
               | Some v \<Rightarrow> v > maxReward max_env)
      then Inl (ValidationError ''Reward value cannot exceed the maximum'')
      else if (case data_reward_description taskData of
                 None \<Rightarrow> True
               | Some d \<Rightarrow> d = [] \<or> length (trim d) < 10 \<or> length (trim d) > 255)
      then Inl (ValidationError ''Reward description must be between 10 and 255 characters'')
      else Inr ())"

text \<open>
  The \<open>try\<close> block around the puzzle generation: any error is logged and replaced by one
  \<open>ValidationError\<close>. \<open>if (image_file)\<close> skips an absent or empty string. The environment
  describes the buffer \<open>Buffer.from(image_file, 'base64')\<close>.
\<close>

definition process_image ::
  "gen_env \<Rightarrow> task_data \<Rightarrow> world \<Rightarrow> (error + PuzzleConfig option) \<times> world" where
  "process_image env taskData w =
     (case data_image_file taskData of
        None \<Rightarrow> (Inr None, w)
      | Some f \<Rightarrow>
          (if f = [] then (Inr None, w)
           else
             (let gridSize = getGridSizeFromDifficulty (data_difficulty taskData);
                  (r, w1) = generateImagePuzzle env gridSize w
              in (case r of
                    Inr c \<Rightarrow> (Inr (Some c), w1)
                  | Inl e \<Rightarrow>
                      (Inl (ValidationError
                              ''Failed to process image. Please ensure it's a valid JPEG/PNG file under 5MB''),
                       w1\<lparr>logs := logs w1 @ [LogError ''Failed to process task image:'' e]\<rparr>)))))"

text \<open>\<open>JSON.stringify(generatedPuzzleConfig)\<close> as the JSONB column then holds it.\<close>

definition config_json :: "PuzzleConfig \<Rightarrow> json" where
  "config_json c =
     JsonObject
       [(''image_url'', JsonString (image_url c)),
        (''grid_size'', JsonNumber (int (grid_size c))),
        (''piece_count'', JsonNumber (piece_count c)),
        (''pieces'',
           JsonArray (map (\<lambda>p. JsonObject [(''index'', JsonNumber (int (ref_index p))),
                                            (''hash'', JsonString (ref_hash p))]) (pieces c))),
        (''shuffled_order'', JsonArray (map (\<lambda>i. JsonNumber (int i)) (shuffled_order c))),
        (''difficulty_seed'', JsonString (difficulty_seed c)),
        (''correct_solution'', JsonArray (map (\<lambda>i. JsonNumber (int i)) (correct_solution c))),
        (''created_at'', JsonString (created_at c)),
        (''expires_at'', JsonString (expires_at c))]"

text \<open>
  \<open>createTask\<close>. \<open>new_id\<close> is the key the table generates. The INSERT is refused when the
  company is no user (the foreign key of \<open>company_id\<close>); the rounding of \<open>reward_value\<close> to
  the column's two decimals is not modelled.
\<close>

definition createTask ::
  "gen_env \<Rightarrow> rat option \<Rightarrow> string \<Rightarrow> string \<Rightarrow> task_data \<Rightarrow> system \<Rightarrow> (error + task) \<times> system" where
  "createTask env max_env new_id companyId taskData s =
     (case validateTaskData max_env taskData of
        Inl e \<Rightarrow> (Inl e, s)
      | Inr u \<Rightarrow>
          (let the_title = trim (the (data_title taskData)) in
           if filter (\<lambda>t. company_id t = companyId \<and> LOWER (title t) = LOWER the_title)
                (tasks (db s)) \<noteq> []
           then (Inl (ConflictError ''Task with this title already exists for your company''), s)
           else
             (let (r, w1) = process_image env taskData (outside s)
              in (case r of
                    Inl e \<Rightarrow> (Inl e, s\<lparr>outside := w1\<rparr>)
                  | Inr generated \<Rightarrow>
                      (if companyId \<notin> user_id ` set (users (db s))
                       then (Inl (JsError ''insert or update on table tasks violates foreign key constraint''),
                             s\<lparr>outside := w1\<rparr>)
                       else
                         (let t = \<lparr>task_id = new_id,
                                   company_id = companyId,
                                   title = the_title,
                                   description =
                                     (case data_description taskData of
                                        None \<Rightarrow> None
                                      | Some d \<Rightarrow> if trim d = [] then None else Some (trim d)),
                                   task_type = data_task_type taskData,
                                   difficulty = data_difficulty taskData,
                                   reward_type = data_reward_type taskData,
                                   reward_value = the (data_reward_value taskData),
                                   reward_description = trim (the (data_reward_description taskData)),
                                   task_image_url = map_option image_url generated,
                                   puzzle_config =
                                     (case generated of None \<Rightarrow> JsonNull | Some c \<Rightarrow> config_json c),
                                   status = ''draft'',
                                   attempt_count = 0,
                                   conversion_count = 0,
                                   task_expires_at = None\<rparr>
                          in (Inr t,
                              (commit ((db s)\<lparr>tasks := tasks (db s) @ [t]\<rparr>) s)
                                \<lparr>cache := (cache s)(task_key new_id \<mapsto> plain_object t),
                                 outside := w1\<rparr>)))))))"

section \<open>TaskService.getTask\<close>

text \<open>JavaScript truthiness of a value.\<close>

fun truthy :: "json \<Rightarrow> bool" where
  "truthy JsonNull = False"
| "truthy (JsonBool b) = b"
| "truthy (JsonNumber n) = (n \<noteq> 0)"
| "truthy (JsonString str) = (str \<noteq> [])"
| "truthy (JsonArray xs) = True"
| "truthy (JsonObject kvs) = True"

text \<open>
  \<open>delete v.correct_solution\<close>: removes the property from an object, throws on \<open>null\<close>,
  and does nothing on a value without that property.
\<close>

fun delete_property :: "string \<Rightarrow> json \<Rightarrow> error + json" where
  "delete_property k JsonNull = Inl TypeError"
| "delete_property k (JsonObject kvs) = Inr (JsonObject (filter (\<lambda>(k', v). k' \<noteq> k) kvs))"
| "delete_property k v = Inr v"

fun has_property :: "string \<Rightarrow> json \<Rightarrow> bool" where
  "has_property k (JsonObject kvs) = (k \<in> fst ` set kvs)"
| "has_property k v = False"

text \<open>
  The cache miss: the SELECT joins the task with its company (an inner join on
  \<open>users\<close>), adds the profile's name when there is one and counts the task's attempts;
  the row is then cached.
\<close>

definition select_task :: "database \<Rightarrow> string \<Rightarrow> task_object list" where
  "select_task d taskId =
     concat (map (\<lambda>t. map (\<lambda>u.
         task.extend t
           (task_object.fields
              (Some (email u))
              (map_option cp_company_name
                 (find (\<lambda>cp. cp_user_id cp = user_id u) (company_profiles d)))
              (Some (int (length (filter (\<lambda>a. attempt_task_id a = task_id t) (task_attempts d)))))
              (Some (int (length (filter (\<lambda>a. attempt_task_id a = task_id t \<and> is_successful a)
                                    (task_attempts d)))))
              None))
         (filter (\<lambda>u. user_id u = company_id t) (users d)))
       (filter (\<lambda>t. task_id t = taskId) (tasks d)))"

definition load_task :: "string \<Rightarrow> system \<Rightarrow> (error + task_object) \<times> system" where
  "load_task taskId s =
     (case cache s (task_key taskId) of
        Some cached \<Rightarrow> (Inr cached, s)
      | None \<Rightarrow>
          (case select_task (db s) taskId of
             [] \<Rightarrow> (Inl (NotFoundError ''Task not found''), s)
           | r # rs \<Rightarrow> (Inr r, s\<lparr>cache := (cache s)(task_key taskId \<mapsto> r)\<rparr>)))"

text \<open>
  \<open>if (userId)\<close>: a user id that is given and not empty. The object the cache holds is
  the one being changed, so every assignment to the task shows in the cache as well.
\<close>

definition attach_user_attempt ::
  "string \<Rightarrow> string option \<Rightarrow> database \<Rightarrow> task_object \<Rightarrow> task_object" where
  "attach_user_attempt taskId userId d t =
     (case userId of
        None \<Rightarrow> t
      | Some uid \<Rightarrow>
          (if uid = [] then t
           else t\<lparr>user_attempt :=
                    find (\<lambda>a. attempt_task_id a = taskId \<and> attempt_user_id a = uid)
                      (task_attempts d)\<rparr>))"

text \<open>
  \<open>JSON_parse v\<close> is \<open>JSON.parse\<close> applied to the value \<open>v\<close> (which it first converts to a
  string), \<open>None\<close> when it throws its \<open>SyntaxError\<close>.
\<close>

definition redact :: "(json \<Rightarrow> json option) \<Rightarrow> task_object \<Rightarrow> error + task_object" where
  "redact JSON_parse t =
     (if truthy (puzzle_config t) then
        (case JSON_parse (puzzle_config t) of
           None \<Rightarrow> Inl SyntaxError
         | Some puzzleConfig \<Rightarrow>
             (case delete_property ''correct_solution'' puzzleConfig of
                Inl e \<Rightarrow> Inl e
              | Inr stripped \<Rightarrow> Inr (t\<lparr>puzzle_config := stripped\<rparr>)))
      else Inr t)"

definition getTask ::
  "(json \<Rightarrow> json option) \<Rightarrow> string \<Rightarrow> string option \<Rightarrow> system \<Rightarrow> (error + task_object) \<times> system" where
  "getTask JSON_parse taskId userId s =
     (let (r, s1) = load_task taskId s
      in (case r of
            Inl e \<Rightarrow> (Inl e, s1)
          | Inr t \<Rightarrow>
              (let t1 = attach_user_attempt taskId userId (db s1) t;
                   s2 = s1\<lparr>cache := (cache s1)(task_key taskId \<mapsto> t1)\<rparr>
               in (case redact JSON_parse t1 of
                     Inl e \<Rightarrow> (Inl e, s2)
                   | Inr t2 \<Rightarrow> (Inr t2, s2\<lparr>cache := (cache s2)(task_key taskId \<mapsto> t2)\<rparr>)))))"

section \<open>TaskService.recordAttempt\<close>

record attempt_data =
  data_is_successful :: bool
  data_time_taken_seconds :: int
  data_difficulty_multiplier :: "rat option"

text \<open>
  The trigger \<open>update_task_counts\<close> of the schema, \<open>AFTER INSERT OR UPDATE ON task_attempts
  FOR EACH ROW\<close>, in its branch for an INSERT: it adds one to the \<open>attempt_count\<close> of the
  row's task, and one to its \<open>conversion_count\<close> when the new row is successful. No
  service updates a row of \<open>task_attempts\<close>, so the other branch never runs.
\<close>

definition update_task_attempt_counts :: "attempt \<Rightarrow> database \<Rightarrow> database" where
  "update_task_attempt_counts new d =
     d\<lparr>tasks :=
         map (\<lambda>t. if task_id t = attempt_task_id new
                   then t\<lparr>attempt_count := attempt_count t + 1,
                           conversion_count :=
                             (if is_successful new then conversion_count t + 1
                              else conversion_count t)\<rparr>
                   else t)
           (tasks d)\<rparr>"

text \<open>
  The INSERT into \<open>task_attempts\<close> with the constraints of the table (one row for a pair
  of task and user, and both have to exist) and with the trigger, which runs inside the
  statement: the row and the trigger's increments are committed together. The counters
  are integers without a bound here; the columns are \<open>INT\<close>, and a statement that takes
  one beyond \<open>2147483647\<close> is refused by the database.
\<close>

definition insert_attempt :: "attempt \<Rightarrow> database \<Rightarrow> error + database" where
  "insert_attempt a d =
     (if filter (\<lambda>b. attempt_task_id b = attempt_task_id a \<and> attempt_user_id b = attempt_user_id a)
           (task_attempts d) \<noteq> []
      then Inl (JsError ''duplicate key value violates unique constraint'')
      else if attempt_task_id a \<notin> task_id ` set (tasks d) \<or>
              attempt_user_id a \<notin> user_id ` set (users d)
      then Inl (JsError ''insert or update on table task_attempts violates foreign key constraint'')
      else Inr (update_task_attempt_counts a (d\<lparr>task_attempts := task_attempts d @ [a]\<rparr>)))"

text \<open>The UPDATE of the task's counters that \<open>recordAttempt\<close> sends after the INSERT.\<close>

definition update_statistics :: "bool \<Rightarrow> string \<Rightarrow> database \<Rightarrow> database" where
  "update_statistics successful taskId d =
     d\<lparr>tasks :=
         map (\<lambda>t. if task_id t = taskId
                   then t\<lparr>attempt_count := attempt_count t + 1,
                           conversion_count :=
                             (if successful then conversion_count t + 1 else conversion_count t)\<rparr>
                   else t)
           (tasks d)\<rparr>"

text \<open>
  \<open>current\<close> is the clock, \<open>new_id\<close> the key the table generates for the row.
  \<open>difficulty_multiplier || 1.0\<close> replaces an absent or zero multiplier.
\<close>

definition new_attempt :: "int \<Rightarrow> string \<Rightarrow> string \<Rightarrow> string \<Rightarrow> attempt_data \<Rightarrow> attempt" where
  "new_attempt current new_id taskId userId attemptData =
     \<lparr>attempt_id = new_id,
      attempt_task_id = taskId,
      attempt_user_id = userId,
      started_at = current - data_time_taken_seconds attemptData * 1000,
      completed_at = current,
      time_taken_seconds = data_time_taken_seconds attemptData,
      is_successful = data_is_successful attemptData,
      difficulty_multiplier =
        (case data_difficulty_multiplier attemptData of
           None \<Rightarrow> 1
         | Some m \<Rightarrow> if m = 0 then 1 else m)\<rparr>"

definition recordAttempt ::
  "int \<Rightarrow> string \<Rightarrow> string \<Rightarrow> string \<Rightarrow> attempt_data \<Rightarrow> system \<Rightarrow> (error + attempt) \<times> system" where
  "recordAttempt current new_id taskId userId attemptData s =
     (if filter (\<lambda>a. attempt_task_id a = taskId \<and> attempt_user_id a = userId)
           (task_attempts (db s)) \<noteq> []
      then (Inl (ConflictError ''You have already attempted this task''), s)
      else
        (case filter (\<lambda>t. task_id t = taskId \<and> status t = ''active'') (tasks (db s)) of
           [] \<Rightarrow> (Inl (NotFoundError ''Task not found or not active''), s)
         | t # ts \<Rightarrow>
             (if (case task_expires_at t of None \<Rightarrow> False | Some e \<Rightarrow> current > e)
              then (Inl (GoneError ''Task has expired''), s)
              else
                (let a = new_attempt current new_id taskId userId attemptData
                 in (case insert_attempt a (db s) of
                       Inl e \<Rightarrow> (Inl e, s)
                     | Inr d1 \<Rightarrow>
                         (let s1 = commit d1 s;
                              s2 = commit (update_statistics (data_is_successful attemptData)
                                             taskId (db s1)) s1
                          in (Inr a, s2\<lparr>cache := (cache s2)(task_key taskId := None)\<rparr>)))))))"

text \<open>
  The counters of every task against its attempt rows.
\<close>

definition counters_match :: "database \<Rightarrow> bool" where
  "counters_match d =
     (\<forall>t \<in> set (tasks d).
        attempt_count t =
          int (length (filter (\<lambda>a. attempt_task_id a = task_id t) (task_attempts d))) \<and>
        conversion_count t =
          int (length (filter (\<lambda>a. attempt_task_id a = task_id t \<and> is_successful a)
                         (task_attempts d))))"

text \<open>Every counter is at most \<open>n\<close>.\<close>

definition counters_below :: "int \<Rightarrow> database \<Rightarrow> bool" where
  "counters_below n d =
     (\<forall>t \<in> set (tasks d). attempt_count t \<le> n \<and> conversion_count t \<le> n)"

section \<open>UserService: the reward ledger\<close>

text \<open>
  \<open>Number.prototype.toString(36)\<close> on a non-negative integer, and
  \<open>String.prototype.toUpperCase\<close> on ASCII.
\<close>

definition digit36 :: "nat \<Rightarrow> char" where
  "digit36 d = ''0123456789abcdefghijklmnopqrstuvwxyz'' ! d"

fun toString36 :: "nat \<Rightarrow> string" where
  "toString36 n = (if n < 36 then [digit36 n] else toString36 (n div 36) @ [digit36 (n mod 36)])"

definition upper_char :: "char \<Rightarrow> char" where
  "upper_char c =
     (let n = (of_char c :: nat) in if 97 \<le> n \<and> n \<le> 122 then char_of (n - 32) else c)"

definition toUpperCase :: "string \<Rightarrow> string" where
  "toUpperCase str = map upper_char str"

text \<open>
  \<open>generateRewardCode\<close>: \<open>current\<close> is \<open>Date.now()\<close> and \<open>random36\<close> is
  \<open>Math.random().toString(36)\<close>, of which \<open>substring(2, 8)\<close> keeps six characters after
  the leading \<open>0.\<close>.
\<close>

definition generateRewardCode :: "int \<Rightarrow> string \<Rightarrow> string" where
  "generateRewardCode current random36 =
     ''TL'' @ toString36 (nat current) @ toUpperCase (take 6 (drop 2 random36))"

text \<open>
  The INSERT into \<open>user_rewards\<close> with the constraints of the table: \<open>reward_code\<close> is
  UNIQUE, the user and the task have to exist.
\<close>

definition insert_reward :: "reward \<Rightarrow> database \<Rightarrow> error + database" where
  "insert_reward r d =
     (if reward_code r \<in> reward_code ` set (user_rewards d)
      then Inl (JsError ''duplicate key value violates unique constraint'')
      else if reward_user_id r \<notin> user_id ` set (users d) \<or>
              reward_task_id r \<notin> task_id ` set (tasks d)
      then Inl (JsError ''insert or update on table user_rewards violates foreign key constraint'')
      else Inr (d\<lparr>user_rewards := user_rewards d @ [r]\<rparr>))"

text \<open>
  \<open>expiry_env\<close> is \<open>parseInt(process.env.REWARD_EXPIRY_DAYS)\<close>, \<open>None\<close> for \<open>NaN\<close>;
  \<open>NaN\<close> and 0 are falsy.
\<close>

definition expiryDays :: "int option \<Rightarrow> int" where
  "expiryDays expiry_env = (case expiry_env of None \<Rightarrow> 30 | Some n \<Rightarrow> if n = 0 then 30 else n)"

definition createReward ::
  "int \<Rightarrow> string \<Rightarrow> string \<Rightarrow> int option \<Rightarrow> string \<Rightarrow> string \<Rightarrow> system \<Rightarrow> (error + reward) \<times> system" where
  "createReward current new_id random36 expiry_env userId taskId s =
     (if filter (\<lambda>r. reward_user_id r = userId \<and> reward_task_id r = taskId)
           (user_rewards (db s)) \<noteq> []
      then (Inl (ConflictError ''Reward already exists for this task''), s)
      else
        (case filter (\<lambda>t. task_id t = taskId) (tasks (db s)) of
           [] \<Rightarrow> (Inl (NotFoundError ''Task not found''), s)
         | t # ts \<Rightarrow>
             (let rewardCode = generateRewardCode current random36;
                  expiresAt = current + expiryDays expiry_env * 24 * 60 * 60 * 1000;
                  r = \<lparr>reward_id = new_id,
                       reward_user_id = userId,
                       reward_task_id = taskId,
                       reward_code = rewardCode,
                       granted_type = reward_type t,
                       granted_value = reward_value t,
                       is_redeemed = False,
                       redeemed_at = None,
                       reward_expires_at = expiresAt\<rparr>
              in (case insert_reward r (db s) of
                    Inl e \<Rightarrow> (Inl e, s)
                  | Inr d1 \<Rightarrow> (Inr r, commit d1 s)))))"

text \<open>
  \<open>redeemReward\<close>. The SELECT joins the reward with its task and the task's company
  (inner joins), so a row needs both. The UPDATE names the reward by its id. Of what
  the function returns, the model keeps the reward as it is after the UPDATE.
\<close>

definition select_reward :: "database \<Rightarrow> string \<Rightarrow> string \<Rightarrow> reward list" where
  "select_reward d rewardCode userId =
     filter (\<lambda>r. reward_code r = rewardCode \<and> reward_user_id r = userId \<and>
                 (\<exists>t \<in> set (tasks d). task_id t = reward_task_id r \<and>
                                        company_id t \<in> user_id ` set (users d)))
       (user_rewards d)"

definition mark_redeemed :: "int \<Rightarrow> string \<Rightarrow> database \<Rightarrow> database" where
  "mark_redeemed current rid d =
     d\<lparr>user_rewards :=
         map (\<lambda>r. if reward_id r = rid then r\<lparr>is_redeemed := True, redeemed_at := Some current\<rparr>
                   else r)
           (user_rewards d)\<rparr>"

definition redeemReward :: "int \<Rightarrow> string \<Rightarrow> string \<Rightarrow> system \<Rightarrow> (error + reward) \<times> system" where
  "redeemReward current userId rewardCode s =
     (case select_reward (db s) rewardCode userId of
        [] \<Rightarrow> (Inl (NotFoundError ''Reward not found''), s)
      | r # rs \<Rightarrow>
          (if is_redeemed r then (Inl (ConflictError ''Reward has already been redeemed''), s)
           else if current > reward_expires_at r then (Inl (GoneError ''Reward has expired''), s)
           else (Inr (r\<lparr>is_redeemed := True, redeemed_at := Some current\<rparr>),
                 commit (mark_redeemed current (reward_id r) (db s)) s)))"

text \<open>
  The foreign keys of \<open>user_rewards\<close> and \<open>tasks\<close> as far as \<open>redeemReward\<close> reads
  through them: every reward has its task, and that task's company is a user.
\<close>

definition references_ok :: "database \<Rightarrow> bool" where
  "references_ok d =
     (\<forall>r \<in> set (user_rewards d).
        \<exists>t \<in> set (tasks d). task_id t = reward_task_id r \<and>
                              company_id t \<in> user_id ` set (users d))"

text \<open>
  All the foreign keys of the three tables: a task's company, an attempt's task and
  user, a reward's task and user.
\<close>

definition foreign_keys_ok :: "database \<Rightarrow> bool" where
  "foreign_keys_ok d =
     ((\<forall>t \<in> set (tasks d). company_id t \<in> user_id ` set (users d)) \<and>
      (\<forall>a \<in> set (task_attempts d).
         attempt_task_id a \<in> task_id ` set (tasks d) \<and>
         attempt_user_id a \<in> user_id ` set (users d)) \<and>
      (\<forall>r \<in> set (user_rewards d).
         reward_task_id r \<in> task_id ` set (tasks d) \<and>
         reward_user_id r \<in> user_id ` set (users d)))"

section \<open>Example data\<close>

definition example_env :: gen_env where
  "example_env =
     \<lparr>buffer_length = 2048,
      sharp_metadata = Promise (Inr \<lparr>format = ''png'', width = 800, height = 600\<rparr>),
      sharp_resize = None,
      sharp_extract = (\<lambda>r c. Inr (''h'' @ [digit10 r, digit10 c])),
      s3_upload_ok = True,
      uuid = ''u1'',
      random_number = (\<lambda>i. 0),
      cdnUrl = ''https://cdn.taskloot.com'',
      now = 0,
      toISOString = (\<lambda>t. ''1970-01-01T00:00:00.000Z'')\<rparr>"

text \<open>
  The buffer of the example task data below: \<open>Buffer.from('aGVsbG8=', 'base64')\<close> holds the
  five bytes of \<open>hello\<close>, which \<open>sharp\<close> does not read as an image.
\<close>

definition example_upload_env :: gen_env where
  "example_upload_env =
     example_env
       \<lparr>buffer_length := 5,
        sharp_metadata := Promise (Inl (JsError ''Input buffer contains unsupported image format'')),
        sharp_resize := Some (JsError ''Input buffer contains unsupported image format''),
        sharp_extract := (\<lambda>r c. Inl (JsError ''Input buffer contains unsupported image format''))\<rparr>"

definition example_world :: world where
  "example_world = \<lparr>logs = [], s3_keys = []\<rparr>"

definition example_task :: task where
  "example_task =
     \<lparr>task_id = ''t1'', company_id = ''c1'', title = ''Pizza Puzzle'', description = None,
      task_type = ''image-puzzle'', difficulty = ''easy'', reward_type = ''discount'',
      reward_value = 20, reward_description = ''20 percent off any large pizza'',
      task_image_url = Some ''https://cdn.taskloot.com/puzzles/u1-original.jpg'',
      puzzle_config = JsonString ''{grid_size:3,correct_solution:[0,1,2]}'',
      status = ''active'', attempt_count = 0, conversion_count = 0, task_expires_at = None\<rparr>"

definition example_db :: database where
  "example_db =
     \<lparr>users = [\<lparr>user_id = ''c1'', email = ''shop@example.com''\<rparr>,
               \<lparr>user_id = ''u1'', email = ''player@example.com''\<rparr>],
      company_profiles = [],
      tasks = [example_task],
      task_attempts = [],
      user_rewards = []\<rparr>"

definition example_system :: system where
  "example_system = \<lparr>db = example_db, history = [], cache = Map.empty, outside = example_world\<rparr>"

text \<open>A stand-in for \<open>JSON.parse\<close> that reads the one string the example task stores.\<close>

definition example_parse :: "json \<Rightarrow> json option" where
  "example_parse v =
     (if v = JsonString ''{grid_size:3,correct_solution:[0,1,2]}''
      then Some (JsonObject [(''grid_size'', JsonNumber 3),
                             (''correct_solution'', JsonArray [JsonNumber 0, JsonNumber 1, JsonNumber 2])])
      else None)"

definition example_attempt :: attempt_data where
  "example_attempt =
     \<lparr>data_is_successful = True, data_time_taken_seconds = 45, data_difficulty_multiplier = None\<rparr>"

definition example_task_data :: task_data where
  "example_task_data =
     \<lparr>data_title = Some ''Burger Puzzle'',
      data_description = None,
      data_task_type = ''image-puzzle'',
      data_difficulty = ''easy'',
      data_reward_type = ''discount'',
      data_reward_value = Some 20,
      data_reward_description = Some ''20 percent off any large pizza'',
      data_image_file = Some ''aGVsbG8=''\<rparr>"

text \<open>The log entries of a puzzle generation refused for its grid size, and for its image.\<close>

definition grid_failure :: log_entry where
  "grid_failure =
     LogError ''Puzzle generation failed:'' (ValidationError ''Grid size must be 9, 16, or 25'')"

definition image_failure :: log_entry where
  "image_failure =
     LogError ''Puzzle generation failed:''
       (ValidationError ''Invalid image format. Must be JPEG/PNG and < 5MB'')"



text \<open>A reward issued to the example player, and the example state holding it.\<close>

definition example_reward :: reward where
  "example_reward =
     \<lparr>reward_id = ''r1'', reward_user_id = ''u1'', reward_task_id = ''t1'',
      reward_code = ''TLrsABC123'', granted_type = ''discount'', granted_value = 20,
      is_redeemed = False, redeemed_at = None, reward_expires_at = 2592001000\<rparr>"

definition rewarded_system :: system where
  "rewarded_system = example_system\<lparr>db := example_db\<lparr>user_rewards := [example_reward]\<rparr>\<rparr>"

section \<open>The puzzle grid\<close>

lemma math_sqrt_values: "math_sqrt 9 = 3" "math_sqrt 16 = 4" "math_sqrt 25 = 5"
  by (simp_all add: math_sqrt_def upt_rec)

lemma side_square:
  assumes "g \<in> {9, 16, 25 :: int}"
  shows "math_sqrt (nat g) * math_sqrt (nat g) = nat g" "math_sqrt (nat g) \<in> {3, 4, 5}"
  using assms math_sqrt_values by auto

lemma length_rows: "length (concat (map (\<lambda>r. map (f r) [0..<n]) [0..<m])) = m * n"
  by (induction m) simp_all

lemma nth_rows:
  "r < m \<Longrightarrow> c < n \<Longrightarrow> concat (map (\<lambda>r. map (f r) [0..<n]) [0..<m]) ! (r * n + c) = f r c"
proof (induction m)
  case 0
  then show ?case by simp
next
  case (Suc m)
  show ?case
  proof (cases "r < m")
    case True
    have "r * n + c < Suc r * n" using Suc.prems(2) by simp
    also have "\<dots> \<le> m * n" using True by (simp add: Suc_leI mult_le_mono1 del: mult_Suc)
    finally have "r * n + c < m * n" .
    with True Suc show ?thesis
      by (simp add: nth_append length_rows)
  next
    case False
    with Suc.prems have "r = m" by simp
    with Suc.prems show ?thesis
      by (simp add: nth_append length_rows)
  qed
qed

lemma length_grid_cells: "length (grid_cells n) = n * n"
  unfolding grid_cells_def by (rule length_rows)

lemma nth_grid_cells: "r < n \<Longrightarrow> c < n \<Longrightarrow> grid_cells n ! (r * n + c) = (r, c)"
  unfolding grid_cells_def by (rule nth_rows)

lemma cell_position:
  assumes "r < n" "c < (n::nat)"
  shows "r * n + c < n * n"
proof -
  have "r * n + c < Suc r * n" using assms(2) by simp
  also have "\<dots> \<le> n * n" using assms(1) by (simp add: Suc_leI mult_le_mono1 del: mult_Suc)
  finally show ?thesis .
qed

lemma set_grid_cells: "set (grid_cells n) = {0..<n} \<times> {0..<n}"
  by (auto simp add: grid_cells_def)

text \<open>What the loops return when they return, and that they return when every cut does.\<close>

lemma slice_cells_pieces:
  assumes "slice_cells env n cells = Inr ps"
  shows "length ps = length cells \<and>
         (\<forall>i < length cells.
            \<exists>h. sharp_extract env (fst (cells ! i)) (snd (cells ! i)) = Inr h \<and>
                ps ! i = \<lparr>index = fst (cells ! i) * n + snd (cells ! i), hash = h,
                          row = fst (cells ! i), col = snd (cells ! i)\<rparr>)"
  using assms
proof (induction cells arbitrary: ps)
  case Nil
  then show ?case by simp
next
  case (Cons cell cells)
  obtain r c where cell: "cell = (r, c)" by (cases cell)
  from Cons.prems cell obtain h ps' where
    h: "sharp_extract env r c = Inr h" and rest: "slice_cells env n cells = Inr ps'"
    and ps: "ps = \<lparr>index = r * n + c, hash = h, row = r, col = c\<rparr> # ps'"
    by (auto split: sum.splits)
  note IH = Cons.IH [OF rest]
  show ?case
  proof (intro conjI allI impI)
    show "length ps = length (cell # cells)" using IH ps by simp
  next
    fix i assume i: "i < length (cell # cells)"
    show "\<exists>h. sharp_extract env (fst ((cell # cells) ! i)) (snd ((cell # cells) ! i)) = Inr h \<and>
             ps ! i = \<lparr>index = fst ((cell # cells) ! i) * n + snd ((cell # cells) ! i), hash = h,
                       row = fst ((cell # cells) ! i), col = snd ((cell # cells) ! i)\<rparr>"
    proof (cases i)
      case 0
      then show ?thesis using h ps cell by simp
    next
      case (Suc j)
      then have "j < length cells" using i by simp
      with IH Suc ps show ?thesis by simp
    qed
  qed
qed

lemma slice_cells_returns:
  assumes "\<forall>cell \<in> set cells. \<exists>h. sharp_extract env (fst cell) (snd cell) = Inr h"
  shows "\<exists>ps. slice_cells env n cells = Inr ps"
  using assms
proof (induction cells)
  case Nil
  then show ?case by simp
next
  case (Cons cell cells)
  obtain r c where cell: "cell = (r, c)" by (cases cell)
  from Cons.prems cell obtain h where h: "sharp_extract env r c = Inr h" by auto
  from Cons obtain ps where "slice_cells env n cells = Inr ps" by auto
  with h cell show ?case by simp
qed

lemma extract_pieces_row_major:
  assumes "extract_pieces env n = Inr ps"
  shows "length ps = n * n"
    and "r < n \<Longrightarrow> k < n \<Longrightarrow>
           \<exists>h. sharp_extract env r k = Inr h \<and>
               ps ! (r * n + k) = \<lparr>index = r * n + k, hash = h, row = r, col = k\<rparr>"
proof -
  note p = slice_cells_pieces [OF assms [unfolded extract_pieces_def]]
  from p show "length ps = n * n" by (simp add: length_grid_cells)
  assume rk: "r < n" "k < n"
  then have "r * n + k < length (grid_cells n)" by (simp add: length_grid_cells cell_position)
  with p have "\<exists>h. sharp_extract env (fst (grid_cells n ! (r * n + k)))
                     (snd (grid_cells n ! (r * n + k))) = Inr h \<and>
                ps ! (r * n + k) =
                  \<lparr>index = fst (grid_cells n ! (r * n + k)) * n + snd (grid_cells n ! (r * n + k)),
                   hash = h, row = fst (grid_cells n ! (r * n + k)),
                   col = snd (grid_cells n ! (r * n + k))\<rparr>"
    by blast
  then show "\<exists>h. sharp_extract env r k = Inr h \<and>
               ps ! (r * n + k) = \<lparr>index = r * n + k, hash = h, row = r, col = k\<rparr>"
    by (simp add: nth_grid_cells [OF rk])
qed

lemma extract_pieces_returns:
  assumes "\<forall>r < n. \<forall>k < n. \<exists>h. sharp_extract env r k = Inr h"
  shows "\<exists>ps. extract_pieces env n = Inr ps"
  unfolding extract_pieces_def
  by (rule slice_cells_returns) (use assms in \<open>auto simp add: set_grid_cells\<close>)

text \<open>The image check refuses every buffer, so no call gets past it.\<close>

lemma isValidImage_never: "\<not> isValidImage env"
  by (simp add: isValidImage_def array_includes_def Let_def split: property.splits)

lemma generate_bad_image:
  assumes "g \<in> {9, 16, 25}"
  shows "generateImagePuzzle env (JNum g) w =
           (Inl (ValidationError ''Invalid image format. Must be JPEG/PNG and < 5MB''),
            w\<lparr>logs := logs w @ [image_failure]\<rparr>)"
  using assms
  by (auto simp add: generateImagePuzzle_def generate_body_def isValidImage_never image_failure_def)

lemma generate_bad_grid:
  assumes "gridSize \<notin> {JNum 9, JNum 16, JNum 25}"
  shows "generateImagePuzzle env gridSize w =
           (Inl (ValidationError ''Grid size must be 9, 16, or 25''), w\<lparr>logs := logs w @ [grid_failure]\<rparr>)"
  using assms
  by (cases gridSize) (auto simp add: generateImagePuzzle_def generate_body_def grid_failure_def)

lemma example_env_simps:
  "s3_upload_ok example_env" "uuid example_env = ''u1''" "sharp_resize example_env = None"
  "sharp_extract example_env r c = Inr (''h'' @ [digit10 r, digit10 c])"
  "cdnUrl example_env = ''https://cdn.taskloot.com''"
  by (simp_all add: example_env_def)

text \<open>
  Claim C9. For a grid size other than 9, 16 and 25 the call throws the
  \<open>ValidationError\<close> of the grid size, and all it leaves behind is the log entry of that
  failure: nothing was uploaded or cut. For a grid size \<open>g\<close> of 9, 16 or 25 the slicing
  loops, when they run, do what the claim says: they return when every cut succeeds,
  and what they return are exactly \<open>g\<close> pieces, the one at position \<open>r * side + k\<close> being
  the piece cut at row \<open>r\<close> and column \<open>k\<close>, with index \<open>r * side + k\<close>, where \<open>side\<close> is the
  square root of \<open>g\<close>. But no call runs them. \<open>isValidImage\<close> reads \<open>format\<close>, \<open>width\<close> and
  \<open>height\<close> from the Promise that \<open>metadata()\<close> returns instead of awaiting it, finds
  \<open>undefined\<close>, and refuses every buffer, so for a grid size of 9, 16 or 25 every call
  throws the \<open>ValidationError\<close> of the image format, with no piece produced and nothing
  uploaded.
\<close>

theorem generateImagePuzzle_slicing:
  "(gridSize \<notin> {JNum 9, JNum 16, JNum 25} \<longrightarrow>
      generateImagePuzzle env gridSize w =
        (Inl (ValidationError ''Grid size must be 9, 16, or 25''), w\<lparr>logs := logs w @ [grid_failure]\<rparr>)) \<and>
   (g \<in> {9, 16, 25} \<longrightarrow>
      generateImagePuzzle env (JNum g) w =
        (Inl (ValidationError ''Invalid image format. Must be JPEG/PNG and < 5MB''),
         w\<lparr>logs := logs w @ [image_failure]\<rparr>)) \<and>
   (g \<in> {9, 16, 25} \<and>
    (\<forall>r < math_sqrt (nat g). \<forall>k < math_sqrt (nat g). \<exists>h. sharp_extract env r k = Inr h) \<longrightarrow>
      (\<exists>ps. extract_pieces env (math_sqrt (nat g)) = Inr ps)) \<and>
   (g \<in> {9, 16, 25} \<and> extract_pieces env (math_sqrt (nat g)) = Inr ps \<longrightarrow>
      length ps = nat g \<and>
      (\<forall>r < math_sqrt (nat g). \<forall>k < math_sqrt (nat g).
         \<exists>h. sharp_extract env r k = Inr h \<and>
             ps ! (r * math_sqrt (nat g) + k) =
               \<lparr>index = r * math_sqrt (nat g) + k, hash = h, row = r, col = k\<rparr>))"
proof (intro conjI impI allI)
  assume "gridSize \<notin> {JNum 9, JNum 16, JNum 25}"
  then show "generateImagePuzzle env gridSize w =
        (Inl (ValidationError ''Grid size must be 9, 16, or 25''), w\<lparr>logs := logs w @ [grid_failure]\<rparr>)"
    by (rule generate_bad_grid)
next
  assume "g \<in> {9, 16, 25}"
  then show "generateImagePuzzle env (JNum g) w =
        (Inl (ValidationError ''Invalid image format. Must be JPEG/PNG and < 5MB''),
         w\<lparr>logs := logs w @ [image_failure]\<rparr>)"
    by (rule generate_bad_image)
next
  assume "g \<in> {9, 16, 25} \<and>
    (\<forall>r < math_sqrt (nat g). \<forall>k < math_sqrt (nat g). \<exists>h. sharp_extract env r k = Inr h)"
  then show "\<exists>ps. extract_pieces env (math_sqrt (nat g)) = Inr ps"
    by (simp add: extract_pieces_returns)
next
  assume a: "g \<in> {9, 16, 25} \<and> extract_pieces env (math_sqrt (nat g)) = Inr ps"
  then show "length ps = nat g"
    using extract_pieces_row_major(1) [of env "math_sqrt (nat g)" ps] side_square(1) [of g]
    by simp
next
  fix r k
  assume a: "g \<in> {9, 16, 25} \<and> extract_pieces env (math_sqrt (nat g)) = Inr ps"
    and "r < math_sqrt (nat g)" "k < math_sqrt (nat g)"
  then show "\<exists>h. sharp_extract env r k = Inr h \<and>
             ps ! (r * math_sqrt (nat g) + k) =
               \<lparr>index = r * math_sqrt (nat g) + k, hash = h, row = r, col = k\<rparr>"
    using extract_pieces_row_major(2) [of env "math_sqrt (nat g)" ps r k] by simp
qed

theorem generateImagePuzzle_slicing_witness:
  "JNum 10 \<notin> {JNum 9, JNum 16, JNum 25} \<and>
   generateImagePuzzle example_env (JNum 10) example_world =
     (Inl (ValidationError ''Grid size must be 9, 16, or 25''),
      example_world\<lparr>logs := logs example_world @ [grid_failure]\<rparr>) \<and>
   generateImagePuzzle example_env (JNum 9) example_world =
     (Inl (ValidationError ''Invalid image format. Must be JPEG/PNG and < 5MB''),
      example_world\<lparr>logs := logs example_world @ [image_failure]\<rparr>) \<and>
   (\<exists>ps. extract_pieces example_env (math_sqrt (nat 9)) = Inr ps \<and>
         length ps = nat 9 \<and>
         ps ! (1 * math_sqrt (nat 9) + 2) =
           \<lparr>index = 1 * math_sqrt (nat 9) + 2, hash = ''h12'', row = 1, col = 2\<rparr>)"
proof -
  have b: "JNum 10 \<notin> {JNum 9, JNum 16, JNum 25}" by simp
  have g: "(9::int) \<in> {9, 16, 25}" by simp
  have lt: "1 < math_sqrt (nat 9)" "2 < math_sqrt (nat 9)"
    by (simp_all add: math_sqrt_values)
  have cuts: "\<forall>r < math_sqrt (nat 9). \<forall>k < math_sqrt (nat 9).
                \<exists>h. sharp_extract example_env r k = Inr h"
    by (simp add: example_env_simps)
  have h12: "sharp_extract example_env 1 2 = Inr ''h12''"
    by (simp add: example_env_simps digit10_def char_of_def bit_0)
  note T = generateImagePuzzle_slicing
    [where g = 9 and env = example_env and w = example_world and gridSize = "JNum 10"]
  from T b have 1: "generateImagePuzzle example_env (JNum 10) example_world =
     (Inl (ValidationError ''Grid size must be 9, 16, or 25''),
      example_world\<lparr>logs := logs example_world @ [grid_failure]\<rparr>)"
    by blast
  from T g have 2: "generateImagePuzzle example_env (JNum 9) example_world =
     (Inl (ValidationError ''Invalid image format. Must be JPEG/PNG and < 5MB''),
      example_world\<lparr>logs := logs example_world @ [image_failure]\<rparr>)"
    by blast
  from T g cuts obtain ps where ps: "extract_pieces example_env (math_sqrt (nat 9)) = Inr ps"
    by blast
  from T [where ps = ps] g ps lt have 3: "length ps = nat 9"
    and "\<exists>h. sharp_extract example_env 1 2 = Inr h \<and>
           ps ! (1 * math_sqrt (nat 9) + 2) =
             \<lparr>index = 1 * math_sqrt (nat 9) + 2, hash = h, row = 1, col = 2\<rparr>"
    by blast+
  with h12 have 4: "ps ! (1 * math_sqrt (nat 9) + 2) =
           \<lparr>index = 1 * math_sqrt (nat 9) + 2, hash = ''h12'', row = 1, col = 2\<rparr>"
    by auto
  from b 1 2 ps 3 4 show ?thesis by blast
qed







section \<open>The grid size createTask asks for\<close>

lemma grid_of_valid_difficulty:
  assumes "d \<in> set [''easy'', ''medium'', ''hard'', ''expert'']"
  shows "getGridSizeFromDifficulty d \<in> {JNum 9, JNum 16, JNum 25}"
  using assms by (auto simp add: getGridSizeFromDifficulty_def gridSizes_def)

lemma validated_difficulty:
  assumes "validateTaskData max_env taskData = Inr ()"
  shows "data_difficulty taskData \<in> set [''easy'', ''medium'', ''hard'', ''expert'']"
  using assms unfolding validateTaskData_def by (simp split: if_splits)

lemma generate_logs:
  assumes "gridSize \<in> {JNum 9, JNum 16, JNum 25}"
    and "generateImagePuzzle env gridSize w = (r, w')"
  shows "\<exists>new. logs w' = logs w @ new \<and> grid_failure \<notin> set new"
proof -
  from assms(1) obtain g where g: "gridSize = JNum g" "g \<in> {9, 16, 25}" by auto
  from assms(2) have "w' = w\<lparr>logs := logs w @ [image_failure]\<rparr>"
    unfolding g(1) generate_bad_image [OF g(2)] by simp
  then have "logs w' = logs w @ [image_failure]" by simp
  moreover have "grid_failure \<notin> set [image_failure]"
    by (simp add: grid_failure_def image_failure_def)
  ultimately show ?thesis by blast
qed

lemma process_image_logs:
  assumes "validateTaskData max_env taskData = Inr ()"
    and "process_image env taskData w = (r, w')"
  shows "\<exists>new. logs w' = logs w @ new \<and> grid_failure \<notin> set new"
proof (cases "data_image_file taskData")
  case None
  with assms(2) show ?thesis by (simp add: process_image_def)
next
  case (Some f)
  show ?thesis
  proof (cases "f = []")
    case True
    with Some assms(2) show ?thesis by (simp add: process_image_def)
  next
    case False
    let ?g = "getGridSizeFromDifficulty (data_difficulty taskData)"
    obtain r1 w1 where run: "generateImagePuzzle env ?g w = (r1, w1)"
      by (cases "generateImagePuzzle env ?g w") blast
    have "?g \<in> {JNum 9, JNum 16, JNum 25}"
      using validated_difficulty [OF assms(1)] by (rule grid_of_valid_difficulty)
    from generate_logs [OF this run] obtain new where
      new: "logs w1 = logs w @ new" "grid_failure \<notin> set new" by blast
    show ?thesis
    proof (cases r1)
      case (Inr c)
      with Some False run assms(2) have "w' = w1" by (simp add: process_image_def)
      with new show ?thesis by blast
    next
      case (Inl e)
      with Some False run assms(2)
      have "w' = w1\<lparr>logs := logs w1 @ [LogError ''Failed to process task image:'' e]\<rparr>"
        by (auto simp add: process_image_def)
      then have "logs w' = logs w @ (new @ [LogError ''Failed to process task image:'' e])"
        using new(1) by simp
      moreover have "grid_failure \<notin> set (new @ [LogError ''Failed to process task image:'' e])"
        using new(2) by (simp add: grid_failure_def)
      ultimately show ?thesis by blast
    qed
  qed
qed

lemma createTask_logs:
  assumes "createTask env max_env new_id companyId taskData s = (r, s')"
  shows "\<exists>new. logs (outside s') = logs (outside s) @ new \<and> grid_failure \<notin> set new"
proof (cases "validateTaskData max_env taskData")
  case (Inl e)
  with assms have "s' = s" by (simp add: createTask_def)
  then show ?thesis by simp
next
  case (Inr u)
  then have ok: "validateTaskData max_env taskData = Inr ()" by simp
  obtain r1 w1 where run: "process_image env taskData (outside s) = (r1, w1)"
    by (cases "process_image env taskData (outside s)") blast
  from process_image_logs [OF ok run] obtain new where
    new: "logs w1 = logs (outside s) @ new" "grid_failure \<notin> set new" by blast
  have "outside s' = outside s \<or> outside s' = w1"
    using assms Inr run
    by (auto simp add: createTask_def Let_def commit_def split: if_splits sum.splits)
  then show ?thesis
  proof
    assume "outside s' = outside s"
    then show ?thesis by simp
  next
    assume "outside s' = w1"
    with new show ?thesis by auto
  qed
qed

text \<open>
  Claim C10. \<open>getGridSizeFromDifficulty\<close> maps \<open>easy\<close> to 9, \<open>medium\<close> to 16, \<open>hard\<close> and
  \<open>expert\<close> to 25, and an input that names nothing the object literal has or inherits to
  the default 16. \<open>createTask\<close> validates the task data first, which admits the four
  difficulties only, so the grid size it asks for is 9, 16 or 25, and no run of
  \<open>createTask\<close> logs a puzzle generation refused for its grid size. What fails is the
  default for every other input: for a name that the object literal inherits from
  \<open>Object.prototype\<close>, such as \<open>constructor\<close>, the lookup \<open>gridSizes[difficulty]\<close> finds the
  inherited member, which is truthy, so \<open>|| 16\<close> keeps it and the function returns it,
  where its documentation promises a number and the test of the default expects 16.
\<close>

theorem createTask_grid_size:
  "getGridSizeFromDifficulty ''easy'' = JNum 9 \<and>
   getGridSizeFromDifficulty ''medium'' = JNum 16 \<and>
   getGridSizeFromDifficulty ''hard'' = JNum 25 \<and>
   getGridSizeFromDifficulty ''expert'' = JNum 25 \<and>
   (d \<notin> set [''easy'', ''medium'', ''hard'', ''expert''] \<and> d \<notin> set object_prototype_keys \<longrightarrow>
      getGridSizeFromDifficulty d = JNum 16) \<and>
   (d \<in> set object_prototype_keys \<longrightarrow>
      getGridSizeFromDifficulty d = JProtoMember d \<and> getGridSizeFromDifficulty d \<noteq> JNum 16) \<and>
   getGridSizeFromDifficulty ''constructor'' = JProtoMember ''constructor'' \<and>
   (validateTaskData max_env taskData = Inr () \<longrightarrow>
      getGridSizeFromDifficulty (data_difficulty taskData) \<in> {JNum 9, JNum 16, JNum 25}) \<and>
   (createTask env max_env new_id companyId taskData s = (r, s') \<longrightarrow>
      (\<exists>new. logs (outside s') = logs (outside s) @ new \<and> grid_failure \<notin> set new))"
proof (intro conjI impI)
  show "getGridSizeFromDifficulty ''easy'' = JNum 9"
    "getGridSizeFromDifficulty ''medium'' = JNum 16"
    "getGridSizeFromDifficulty ''hard'' = JNum 25"
    "getGridSizeFromDifficulty ''expert'' = JNum 25"
    by (simp_all add: getGridSizeFromDifficulty_def gridSizes_def)
  show "getGridSizeFromDifficulty ''constructor'' = JProtoMember ''constructor''"
    by (simp add: getGridSizeFromDifficulty_def gridSizes_def object_prototype_keys_def)
next
  assume "d \<notin> set [''easy'', ''medium'', ''hard'', ''expert''] \<and> d \<notin> set object_prototype_keys"
  then show "getGridSizeFromDifficulty d = JNum 16"
    by (simp add: getGridSizeFromDifficulty_def gridSizes_def)
next
  assume d: "d \<in> set object_prototype_keys"
  then have "d \<notin> set [''easy'', ''medium'', ''hard'', ''expert'']"
    by (auto simp add: object_prototype_keys_def)
  with d show m: "getGridSizeFromDifficulty d = JProtoMember d"
    by (simp add: getGridSizeFromDifficulty_def gridSizes_def)
  then show "getGridSizeFromDifficulty d \<noteq> JNum 16" by simp
next
  assume "validateTaskData max_env taskData = Inr ()"
  then have "data_difficulty taskData \<in> set [''easy'', ''medium'', ''hard'', ''expert'']"
    by (rule validated_difficulty)
  then show "getGridSizeFromDifficulty (data_difficulty taskData) \<in> {JNum 9, JNum 16, JNum 25}"
    by (rule grid_of_valid_difficulty)
next
  assume "createTask env max_env new_id companyId taskData s = (r, s')"
  then show "\<exists>new. logs (outside s') = logs (outside s) @ new \<and> grid_failure \<notin> set new"
    by (rule createTask_logs)
qed

lemma example_task_data_valid: "validateTaskData None example_task_data = Inr ()"
  by (simp add: validateTaskData_def example_task_data_def trim_def is_space_def maxReward_def)

lemma example_createTask:
  "createTask example_upload_env None ''t2'' ''c1'' example_task_data example_system =
     (Inl (ValidationError
             ''Failed to process image. Please ensure it's a valid JPEG/PNG file under 5MB''),
      example_system
        \<lparr>outside := example_world
           \<lparr>logs := [image_failure,
                     LogError ''Failed to process task image:''
                       (ValidationError ''Invalid image format. Must be JPEG/PNG and < 5MB'')]\<rparr>\<rparr>)"
proof -
  have g: "getGridSizeFromDifficulty (data_difficulty example_task_data) = JNum 9"
    by (simp add: getGridSizeFromDifficulty_def gridSizes_def example_task_data_def)
  have img: "data_image_file example_task_data = Some ''aGVsbG8=''"
    by (simp add: example_task_data_def)
  have gen: "generateImagePuzzle example_upload_env (JNum 9) example_world =
           (Inl (ValidationError ''Invalid image format. Must be JPEG/PNG and < 5MB''),
            example_world\<lparr>logs := [image_failure]\<rparr>)"
    by (simp add: generate_bad_image example_world_def)
  have p: "process_image example_upload_env example_task_data example_world =
             (Inl (ValidationError
                     ''Failed to process image. Please ensure it's a valid JPEG/PNG file under 5MB''),
              example_world
                \<lparr>logs := [image_failure,
                          LogError ''Failed to process task image:''
                            (ValidationError ''Invalid image format. Must be JPEG/PNG and < 5MB'')]\<rparr>)"
    by (simp add: process_image_def img g gen)
  have t: "trim (the (data_title example_task_data)) = ''Burger Puzzle''"
    by (simp add: example_task_data_def trim_def is_space_def)
  have f: "filter (\<lambda>t. company_id t = ''c1'' \<and> LOWER (title t) = LOWER ''Burger Puzzle'')
             (tasks (db example_system)) = []"
    by (simp add: example_system_def example_db_def example_task_def LOWER_def lower_char_def)
  have o: "outside example_system = example_world"
    by (simp add: example_system_def)
  show ?thesis
    by (simp add: createTask_def example_task_data_valid t f p o Let_def)
qed

theorem createTask_grid_size_witness:
  "(''invalid'' \<notin> set [''easy'', ''medium'', ''hard'', ''expert''] \<and>
    ''invalid'' \<notin> set object_prototype_keys) \<and>
   getGridSizeFromDifficulty ''invalid'' = JNum 16 \<and>
   ''toString'' \<in> set object_prototype_keys \<and>
   getGridSizeFromDifficulty ''toString'' = JProtoMember ''toString'' \<and>
   validateTaskData None example_task_data = Inr () \<and>
   getGridSizeFromDifficulty (data_difficulty example_task_data) \<in> {JNum 9, JNum 16, JNum 25} \<and>
   logs (outside (snd (createTask example_upload_env None ''t2'' ''c1'' example_task_data example_system))) =
     [image_failure,
      LogError ''Failed to process task image:''
        (ValidationError ''Invalid image format. Must be JPEG/PNG and < 5MB'')] \<and>
   grid_failure \<notin> set [image_failure,
      LogError ''Failed to process task image:''
        (ValidationError ''Invalid image format. Must be JPEG/PNG and < 5MB'')]"
proof -
  let ?run = "createTask example_upload_env None ''t2'' ''c1'' example_task_data example_system"
  let ?new = "[image_failure,
      LogError ''Failed to process task image:''
        (ValidationError ''Invalid image format. Must be JPEG/PNG and < 5MB'')]"
  have h: "''invalid'' \<notin> set [''easy'', ''medium'', ''hard'', ''expert''] \<and>
    ''invalid'' \<notin> set object_prototype_keys"
    by (simp add: object_prototype_keys_def)
  have k: "''toString'' \<in> set object_prototype_keys"
    by (simp add: object_prototype_keys_def)
  have run: "?run = (fst ?run, snd ?run)" by simp
  have l: "logs (outside (snd ?run)) = ?new"
    by (simp add: example_createTask)
  have e: "logs (outside example_system) = []"
    by (simp add: example_system_def example_world_def)
  note T = createTask_grid_size [where max_env = None and taskData = example_task_data
      and env = example_upload_env and new_id = "''t2''" and companyId = "''c1''" and s = example_system
      and r = "fst ?run" and s' = "snd ?run"]
  from T [where d = "''invalid''"] h have 1: "getGridSizeFromDifficulty ''invalid'' = JNum 16"
    by blast
  from T [where d = "''toString''"] k
  have 2: "getGridSizeFromDifficulty ''toString'' = JProtoMember ''toString''"
    by blast
  from T [where d = "''invalid''"] example_task_data_valid
  have 3: "getGridSizeFromDifficulty (data_difficulty example_task_data) \<in> {JNum 9, JNum 16, JNum 25}"
    by blast
  from T [where d = "''invalid''"] run
  obtain new where "logs (outside (snd ?run)) = logs (outside example_system) @ new"
    and "grid_failure \<notin> set new"
    by blast
  with l e have 4: "grid_failure \<notin> set ?new" by simp
  from h k 1 2 3 4 l example_task_data_valid show ?thesis by blast
qed

section \<open>Reading a task\<close>

lemma delete_property_removes:
  "delete_property k v = Inr v' \<Longrightarrow> \<not> has_property k v'"
  by (cases v) (auto split: if_splits)

lemma redact_strips:
  assumes "redact JSON_parse t = Inr t'"
  shows "\<not> has_property ''correct_solution'' (puzzle_config t')"
proof (cases "truthy (puzzle_config t)")
  case False
  with assms have "t' = t" by (simp add: redact_def)
  with False show ?thesis by (cases "puzzle_config t") auto
next
  case True
  with assms obtain v where "delete_property ''correct_solution'' v = Inr (puzzle_config t')"
    by (auto simp add: redact_def split: option.splits sum.splits)
  then show ?thesis by (rule delete_property_removes)
qed

lemma getTask_result:
  assumes "getTask JSON_parse taskId userId s = (Inr t, s')"
  shows "\<exists>t0 s1. load_task taskId s = (Inr t0, s1) \<and>
           redact JSON_parse (attach_user_attempt taskId userId (db s1) t0) = Inr t"
  using assms
  by (cases "load_task taskId s")
     (auto simp add: getTask_def Let_def split: sum.splits)

lemma attach_keeps_config:
  "puzzle_config (attach_user_attempt taskId userId d t) = puzzle_config t"
  by (simp add: attach_user_attempt_def split: option.splits)

text \<open>
  Claim C1. Whenever \<open>getTask\<close> returns a task, the task's \<open>puzzle_config\<close> has no
  \<open>correct_solution\<close> property: if the task it loaded (from the cache or from the
  database) has a \<open>puzzle_config\<close>, the returned one is what \<open>JSON.parse\<close> made of it
  with the \<open>correct_solution\<close> entry deleted; a task without a \<open>puzzle_config\<close> is
  returned with the same empty value. This holds for every cache, every database and
  whatever \<open>JSON.parse\<close> does.
\<close>

theorem getTask_strips_solution:
  assumes "getTask JSON_parse taskId userId s = (Inr t, s')"
  shows "\<not> has_property ''correct_solution'' (puzzle_config t) \<and>
         (\<exists>t0 s1. load_task taskId s = (Inr t0, s1) \<and>
            (if truthy (puzzle_config t0)
             then \<exists>parsed. JSON_parse (puzzle_config t0) = Some parsed \<and>
                    delete_property ''correct_solution'' parsed = Inr (puzzle_config t)
             else puzzle_config t = puzzle_config t0))"
proof -
  from getTask_result [OF assms] obtain t0 s1 where
    l: "load_task taskId s = (Inr t0, s1)" and
    r: "redact JSON_parse (attach_user_attempt taskId userId (db s1) t0) = Inr t"
    by blast
  have "\<not> has_property ''correct_solution'' (puzzle_config t)"
    using r by (rule redact_strips)
  moreover have "if truthy (puzzle_config t0)
             then \<exists>parsed. JSON_parse (puzzle_config t0) = Some parsed \<and>
                    delete_property ''correct_solution'' parsed = Inr (puzzle_config t)
             else puzzle_config t = puzzle_config t0"
    using r
    by (auto simp add: redact_def attach_keeps_config split: option.splits sum.splits if_splits)
  ultimately show ?thesis using l by blast
qed

lemma example_getTask:
  "fst (getTask example_parse ''t1'' (Some ''u1'') example_system) =
     Inr (task.extend (example_task\<lparr>puzzle_config := JsonObject [(''grid_size'', JsonNumber 3)]\<rparr>)
            (task_object.fields (Some ''shop@example.com'') None (Some 0) (Some 0) None))"
  by (simp add: getTask_def load_task_def select_task_def example_system_def example_db_def
        example_task_def task_key_def attach_user_attempt_def redact_def example_parse_def
        task.extend_def task_object.fields_def Let_def)


theorem getTask_strips_solution_witness:
  "fst (getTask example_parse ''t1'' (Some ''u1'') example_system) =
     Inr (task.extend (example_task\<lparr>puzzle_config := JsonObject [(''grid_size'', JsonNumber 3)]\<rparr>)
            (task_object.fields (Some ''shop@example.com'') None (Some 0) (Some 0) None)) \<and>
   has_property ''correct_solution''
     (JsonObject [(''grid_size'', JsonNumber 3),
                  (''correct_solution'', JsonArray [JsonNumber 0, JsonNumber 1, JsonNumber 2])]) \<and>
   \<not> has_property ''correct_solution''
     (puzzle_config (task.extend (example_task\<lparr>puzzle_config := JsonObject [(''grid_size'', JsonNumber 3)]\<rparr>)
            (task_object.fields (Some ''shop@example.com'') None (Some 0) (Some 0) None)))"
proof -
  let ?t = "task.extend (example_task\<lparr>puzzle_config := JsonObject [(''grid_size'', JsonNumber 3)]\<rparr>)
            (task_object.fields (Some ''shop@example.com'') None (Some 0) (Some 0) None)"
  obtain s' where run: "getTask example_parse ''t1'' (Some ''u1'') example_system = (Inr ?t, s')"
    using example_getTask by (cases "getTask example_parse ''t1'' (Some ''u1'') example_system") simp
  from getTask_strips_solution [OF run]
  have "\<not> has_property ''correct_solution'' (puzzle_config ?t)" by blast
  then show ?thesis using example_getTask by simp
qed

section \<open>Recording an attempt\<close>

lemma filter_empty_iff: "(filter P xs = []) = (\<forall>x \<in> set xs. \<not> P x)"
  by (simp add: filter_empty_conv)


lemma find_filter_hd: "find P xs = Some y \<Longrightarrow> \<exists>ys. filter P xs = y # ys"
  by (induction xs) (auto split: if_splits)


lemma example_recordAttempt:
  "recordAttempt 1000000 ''a1'' ''t1'' ''u1'' example_attempt example_system =
     (Inr (new_attempt 1000000 ''a1'' ''t1'' ''u1'' example_attempt),
      example_system
        \<lparr>db := example_db
           \<lparr>tasks := [example_task\<lparr>attempt_count := 2, conversion_count := 2\<rparr>],
            task_attempts := [new_attempt 1000000 ''a1'' ''t1'' ''u1'' example_attempt]\<rparr>,
         history :=
           [example_db
              \<lparr>tasks := [example_task\<lparr>attempt_count := 1, conversion_count := 1\<rparr>],
               task_attempts := [new_attempt 1000000 ''a1'' ''t1'' ''u1'' example_attempt]\<rparr>,
            example_db
              \<lparr>tasks := [example_task\<lparr>attempt_count := 2, conversion_count := 2\<rparr>],
               task_attempts := [new_attempt 1000000 ''a1'' ''t1'' ''u1'' example_attempt]\<rparr>],
         cache := Map.empty\<rparr>)"
  by (simp add: recordAttempt_def example_system_def example_db_def example_task_def
        insert_attempt_def update_statistics_def update_task_attempt_counts_def commit_def Let_def
        new_attempt_def example_attempt_def task_key_def)

lemma new_attempt_simps:
  "attempt_task_id (new_attempt current new_id taskId userId attemptData) = taskId"
  "attempt_user_id (new_attempt current new_id taskId userId attemptData) = userId"
  "is_successful (new_attempt current new_id taskId userId attemptData) = data_is_successful attemptData"
  by (simp_all add: new_attempt_def)



section \<open>The counters of a task\<close>

lemma image_map_same:
  assumes "\<And>x. g (f x) = g x"
  shows "g ` set (map f xs) = g ` set xs"
  using assms by (induction xs) simp_all

lemma trigger_is_update:
  "update_task_attempt_counts a d = update_statistics (is_successful a) (attempt_task_id a) d"
  by (simp add: update_task_attempt_counts_def update_statistics_def)

lemma update_statistics_ids:
  "task_id ` set (tasks (update_statistics successful taskId d)) = task_id ` set (tasks d)"
proof -
  let ?f = "\<lambda>t. if task_id t = taskId
                 then t\<lparr>attempt_count := attempt_count t + 1,
                         conversion_count :=
                           (if successful then conversion_count t + 1 else conversion_count t)\<rparr>
                 else t"
  have "tasks (update_statistics successful taskId d) = map ?f (tasks d)"
    by (simp add: update_statistics_def)
  then show ?thesis by (simp only:) (rule image_map_same, simp)
qed

lemma recordAttempt_success:
  assumes "recordAttempt current new_id taskId userId attemptData s = (Inr a, s')"
  shows "a = new_attempt current new_id taskId userId attemptData"
    and "history s' = history s @
           [update_task_attempt_counts a ((db s)\<lparr>task_attempts := task_attempts (db s) @ [a]\<rparr>),
            db s']"
    and "db s' = update_statistics (data_is_successful attemptData) taskId
           (update_task_attempt_counts a ((db s)\<lparr>task_attempts := task_attempts (db s) @ [a]\<rparr>))"
    and "\<exists>t \<in> set (tasks (db s)). task_id t = taskId"
proof -
  from assms show a: "a = new_attempt current new_id taskId userId attemptData"
    by (auto simp add: recordAttempt_def Let_def split: if_splits list.splits sum.splits)
  from assms show d: "db s' = update_statistics (data_is_successful attemptData) taskId
           (update_task_attempt_counts a ((db s)\<lparr>task_attempts := task_attempts (db s) @ [a]\<rparr>))"
    by (auto simp add: recordAttempt_def Let_def commit_def insert_attempt_def
             split: if_splits list.splits sum.splits)
  from assms have "history s' = history s @
           [update_task_attempt_counts a ((db s)\<lparr>task_attempts := task_attempts (db s) @ [a]\<rparr>),
            update_statistics (data_is_successful attemptData) taskId
              (update_task_attempt_counts a ((db s)\<lparr>task_attempts := task_attempts (db s) @ [a]\<rparr>))]"
    by (auto simp add: recordAttempt_def Let_def commit_def insert_attempt_def
             split: if_splits list.splits sum.splits)
  then show "history s' = history s @
           [update_task_attempt_counts a ((db s)\<lparr>task_attempts := task_attempts (db s) @ [a]\<rparr>),
            db s']"
    by (simp only: d)
  from assms obtain t ts where
    "filter (\<lambda>t. task_id t = taskId \<and> status t = ''active'') (tasks (db s)) = t # ts"
    by (auto simp add: recordAttempt_def split: if_splits list.splits)
  then have "t \<in> set (filter (\<lambda>t. task_id t = taskId \<and> status t = ''active'') (tasks (db s)))"
    by simp
  then show "\<exists>t \<in> set (tasks (db s)). task_id t = taskId" by auto
qed

lemma counters_after_insert:
  assumes "counters_match d"
  shows "counters_match (update_task_attempt_counts a (d\<lparr>task_attempts := task_attempts d @ [a]\<rparr>))"
  using assms by (auto simp add: counters_match_def update_task_attempt_counts_def)

lemma counted_twice:
  assumes inv: "counters_match d"
    and a: "attempt_task_id a = taskId" "is_successful a = successful"
    and t: "t \<in> set (tasks (update_statistics successful taskId
              (update_task_attempt_counts a (d\<lparr>task_attempts := task_attempts d @ [a]\<rparr>))))"
           "task_id t = taskId"
  shows "attempt_count t =
           int (length (filter (\<lambda>b. attempt_task_id b = taskId) (task_attempts d @ [a]))) + 1"
    and "conversion_count t =
           int (length (filter (\<lambda>b. attempt_task_id b = taskId \<and> is_successful b)
                          (task_attempts d @ [a]))) + (if successful then 1 else 0)"
  using assms
  by (auto simp add: counters_match_def update_task_attempt_counts_def update_statistics_def)

lemma counters_stay_below:
  assumes "counters_below n d"
  shows "counters_below (n + 1)
           (update_task_attempt_counts a (d\<lparr>task_attempts := task_attempts d @ [a]\<rparr>))"
    and "counters_below (n + 2) (update_statistics successful taskId
           (update_task_attempt_counts a (d\<lparr>task_attempts := task_attempts d @ [a]\<rparr>)))"
  using assms
  by (auto simp add: counters_below_def update_task_attempt_counts_def update_statistics_def)

text \<open>
  Claim C5 says that a task's counters always equal the counts of its attempt rows,
  the row and the increments being written as one unit. The trigger of the schema does
  write them as one unit: the INSERT commits the row together with the increments, and
  in that state the counters match. \<open>recordAttempt\<close> then sends its own UPDATE of the same
  counters, a second statement committed by itself, and the attempt is counted again.
  From a state whose counters match (and are low enough for two increments of an \<open>INT\<close>
  column), every call that records an attempt ends in a state whose counters do not
  match: the task's \<open>attempt_count\<close> is one more than the number of its rows, and its
  \<open>conversion_count\<close> is one more than the number of its successful rows when the
  attempt is successful.
\<close>

theorem recordAttempt_counts_twice:
  assumes "counters_match (db s)" and "counters_below 2147483645 (db s)"
    and "recordAttempt current new_id taskId userId attemptData s = (Inr a, s')"
  shows "(\<exists>d1. history s' = history s @ [d1, db s'] \<and> counters_match d1 \<and>
               counters_below 2147483646 d1) \<and>
         counters_below 2147483647 (db s') \<and>
         \<not> counters_match (db s') \<and>
         (\<exists>t \<in> set (tasks (db s')). task_id t = taskId) \<and>
         (\<forall>t \<in> set (tasks (db s')). task_id t = taskId \<longrightarrow>
            attempt_count t =
              int (length (filter (\<lambda>b. attempt_task_id b = taskId) (task_attempts (db s')))) + 1 \<and>
            conversion_count t =
              int (length (filter (\<lambda>b. attempt_task_id b = taskId \<and> is_successful b)
                             (task_attempts (db s')))) +
              (if data_is_successful attemptData then 1 else 0))"
proof -
  note r = recordAttempt_success [OF assms(3)]
  let ?d0 = "(db s)\<lparr>task_attempts := task_attempts (db s) @ [a]\<rparr>"
  let ?d1 = "update_task_attempt_counts a ?d0"
  have ta: "attempt_task_id a = taskId" "is_successful a = data_is_successful attemptData"
    using r(1) by (simp_all add: new_attempt_simps)
  have rows: "task_attempts (db s') = task_attempts (db s) @ [a]"
    unfolding r(3) by (simp add: update_statistics_def update_task_attempt_counts_def)
  have "task_id ` set (tasks (db s')) = task_id ` set (tasks ?d1)"
    by (simp only: r(3) update_statistics_ids)
  also have "\<dots> = task_id ` set (tasks ?d0)"
    by (simp only: trigger_is_update update_statistics_ids)
  also have "\<dots> = task_id ` set (tasks (db s))" by simp
  finally have ids: "task_id ` set (tasks (db s')) = task_id ` set (tasks (db s))" .
  have first: "history s' = history s @ [?d1, db s'] \<and> counters_match ?d1 \<and>
      counters_below 2147483646 ?d1"
    using r(2) counters_after_insert [OF assms(1)] counters_stay_below(1) [OF assms(2)]
    by simp
  have below: "counters_below 2147483647 (db s')"
    unfolding r(3) using counters_stay_below(2) [OF assms(2)] by simp
  have some: "\<exists>t \<in> set (tasks (db s')). task_id t = taskId"
  proof -
    from r(4) have "taskId \<in> task_id ` set (tasks (db s))" by auto
    then have "taskId \<in> task_id ` set (tasks (db s'))" by (simp only: ids)
    then show ?thesis by auto
  qed
  have twice: "attempt_count t =
        int (length (filter (\<lambda>b. attempt_task_id b = taskId) (task_attempts (db s')))) + 1 \<and>
      conversion_count t =
        int (length (filter (\<lambda>b. attempt_task_id b = taskId \<and> is_successful b)
                       (task_attempts (db s')))) +
        (if data_is_successful attemptData then 1 else 0)"
    if "t \<in> set (tasks (db s'))" "task_id t = taskId" for t
  proof -
    have "t \<in> set (tasks (update_statistics (data_is_successful attemptData) taskId ?d1))"
      using that(1) by (simp only: r(3))
    from counted_twice [OF assms(1) ta this that(2)] show ?thesis
      by (simp only: rows simp_thms)
  qed
  have differ: "\<not> counters_match (db s')"
  proof
    assume m: "counters_match (db s')"
    from some obtain t where t: "t \<in> set (tasks (db s'))" "task_id t = taskId" by blast
    from m t have "attempt_count t =
        int (length (filter (\<lambda>b. attempt_task_id b = taskId) (task_attempts (db s'))))"
      by (auto simp add: counters_match_def)
    with twice [OF t] show False by simp
  qed
  show ?thesis
  proof (intro conjI ballI impI)
    show "\<exists>d1. history s' = history s @ [d1, db s'] \<and> counters_match d1 \<and>
               counters_below 2147483646 d1"
      using first by (rule exI)
    show "counters_below 2147483647 (db s')" by (rule below)
    show "\<not> counters_match (db s')" by (rule differ)
    show "\<exists>t \<in> set (tasks (db s')). task_id t = taskId" by (rule some)
  next
    fix t assume t: "t \<in> set (tasks (db s'))" "task_id t = taskId"
    from twice [OF t]
    show "attempt_count t =
        int (length (filter (\<lambda>b. attempt_task_id b = taskId) (task_attempts (db s')))) + 1"
      by (rule conjunct1)
    from twice [OF t]
    show "conversion_count t =
        int (length (filter (\<lambda>b. attempt_task_id b = taskId \<and> is_successful b)
                       (task_attempts (db s')))) +
        (if data_is_successful attemptData then 1 else 0)"
      by (rule conjunct2)
  qed
qed

lemma example_counters: "counters_match (db example_system)"
  by (simp add: counters_match_def example_system_def example_db_def example_task_def)

lemma example_below: "counters_below 2147483645 (db example_system)"
  by (simp add: counters_below_def example_system_def example_db_def example_task_def)

theorem recordAttempt_counts_twice_witness:
  "counters_match (db example_system) \<and>
   counters_below 2147483645 (db example_system) \<and>
   fst (recordAttempt 1000000 ''a1'' ''t1'' ''u1'' example_attempt example_system) =
     Inr (new_attempt 1000000 ''a1'' ''t1'' ''u1'' example_attempt) \<and>
   history (snd (recordAttempt 1000000 ''a1'' ''t1'' ''u1'' example_attempt example_system)) =
     [example_db
        \<lparr>tasks := [example_task\<lparr>attempt_count := 1, conversion_count := 1\<rparr>],
         task_attempts := [new_attempt 1000000 ''a1'' ''t1'' ''u1'' example_attempt]\<rparr>,
      example_db
        \<lparr>tasks := [example_task\<lparr>attempt_count := 2, conversion_count := 2\<rparr>],
         task_attempts := [new_attempt 1000000 ''a1'' ''t1'' ''u1'' example_attempt]\<rparr>] \<and>
   \<not> counters_match
        (db (snd (recordAttempt 1000000 ''a1'' ''t1'' ''u1'' example_attempt example_system)))"
proof -
  let ?a = "new_attempt 1000000 ''a1'' ''t1'' ''u1'' example_attempt"
  let ?s = "snd (recordAttempt 1000000 ''a1'' ''t1'' ''u1'' example_attempt example_system)"
  have f: "fst (recordAttempt 1000000 ''a1'' ''t1'' ''u1'' example_attempt example_system) = Inr ?a"
    by (simp add: example_recordAttempt)
  then have run: "recordAttempt 1000000 ''a1'' ''t1'' ''u1'' example_attempt example_system = (Inr ?a, ?s)"
    by (simp add: prod_eq_iff)
  have h: "history ?s =
     [example_db
        \<lparr>tasks := [example_task\<lparr>attempt_count := 1, conversion_count := 1\<rparr>],
         task_attempts := [?a]\<rparr>,
      example_db
        \<lparr>tasks := [example_task\<lparr>attempt_count := 2, conversion_count := 2\<rparr>],
         task_attempts := [?a]\<rparr>]"
    by (simp add: example_recordAttempt)
  from recordAttempt_counts_twice [OF example_counters example_below run]
  have "\<not> counters_match (db ?s)" by blast
  with f h example_counters example_below show ?thesis by simp
qed

section \<open>Redeeming a reward\<close>

lemma select_reward_refs:
  assumes "references_ok d"
  shows "select_reward d rewardCode userId =
           filter (\<lambda>r. reward_code r = rewardCode \<and> reward_user_id r = userId) (user_rewards d)"
  unfolding select_reward_def
  by (rule filter_cong) (use assms in \<open>auto simp add: references_ok_def\<close>)

lemma references_mark_redeemed:
  assumes "references_ok d"
  shows "references_ok (mark_redeemed current rid d)"
  using assms by (auto simp add: references_ok_def mark_redeemed_def)

lemma find_map_same:
  assumes "\<And>x. P (f x) = P x"
  shows "find P (map f xs) = map_option f (find P xs)"
  using assms by (induction xs) auto

lemma find_mark_redeemed:
  assumes "find (\<lambda>r. reward_code r = rewardCode \<and> reward_user_id r = userId) (user_rewards d) = Some r"
  shows "find (\<lambda>r. reward_code r = rewardCode \<and> reward_user_id r = userId)
           (user_rewards (mark_redeemed current (reward_id r) d)) =
         Some (r\<lparr>is_redeemed := True, redeemed_at := Some current\<rparr>)"
proof -
  let ?f = "\<lambda>x. if reward_id x = reward_id r
                 then x\<lparr>is_redeemed := True, redeemed_at := Some current\<rparr> else x"
  have "find (\<lambda>r. reward_code r = rewardCode \<and> reward_user_id r = userId) (map ?f (user_rewards d)) =
          map_option ?f (find (\<lambda>r. reward_code r = rewardCode \<and> reward_user_id r = userId) (user_rewards d))"
    by (rule find_map_same) simp
  then show ?thesis using assms by (simp add: mark_redeemed_def)
qed

lemma redeem_found:
  assumes refs: "references_ok (db s)"
    and f: "find (\<lambda>r. reward_code r = rewardCode \<and> reward_user_id r = userId) (user_rewards (db s)) = Some r"
  shows "redeemReward current userId rewardCode s =
           (if is_redeemed r then (Inl (ConflictError ''Reward has already been redeemed''), s)
            else if current > reward_expires_at r then (Inl (GoneError ''Reward has expired''), s)
            else (Inr (r\<lparr>is_redeemed := True, redeemed_at := Some current\<rparr>),
                  commit (mark_redeemed current (reward_id r) (db s)) s))"
proof -
  from find_filter_hd [OF f] obtain rs where
    "filter (\<lambda>r. reward_code r = rewardCode \<and> reward_user_id r = userId) (user_rewards (db s)) = r # rs"
    by blast
  then have "select_reward (db s) rewardCode userId = r # rs"
    using refs by (simp add: select_reward_refs)
  then show ?thesis by (simp add: redeemReward_def)
qed

text \<open>
  Claim C4. \<open>redeemReward\<close> throws a \<open>NotFoundError\<close> when no reward row has both the
  code and the user (so also when the code is another user's). With the foreign keys
  of the schema in force and \<open>r\<close> the row found: it throws a \<open>ConflictError\<close> when \<open>r\<close>
  is already redeemed; otherwise a \<open>GoneError\<close> when the clock is past \<open>r\<close>'s
  \<open>expires_at\<close>; otherwise it sets \<open>is_redeemed\<close> and stamps \<open>redeemed_at\<close> with the
  clock, after which every further call, at whatever time, throws the \<open>ConflictError\<close>
  and changes nothing: the stamp is set once. Every call that throws leaves the state
  as it was.
\<close>

theorem redeemReward_checks:
  "(\<not> (\<exists>r \<in> set (user_rewards (db s)). reward_code r = rewardCode \<and> reward_user_id r = userId) \<longrightarrow>
      redeemReward current userId rewardCode s = (Inl (NotFoundError ''Reward not found''), s)) \<and>
   (references_ok (db s) \<and>
    find (\<lambda>r. reward_code r = rewardCode \<and> reward_user_id r = userId) (user_rewards (db s)) = Some r \<longrightarrow>
      (is_redeemed r \<longrightarrow>
         redeemReward current userId rewardCode s =
           (Inl (ConflictError ''Reward has already been redeemed''), s)) \<and>
      (\<not> is_redeemed r \<and> reward_expires_at r < current \<longrightarrow>
         redeemReward current userId rewardCode s = (Inl (GoneError ''Reward has expired''), s)) \<and>
      (\<not> is_redeemed r \<and> current \<le> reward_expires_at r \<longrightarrow>
         (\<exists>s'. redeemReward current userId rewardCode s =
                 (Inr (r\<lparr>is_redeemed := True, redeemed_at := Some current\<rparr>), s') \<and>
               db s' = mark_redeemed current (reward_id r) (db s) \<and>
               find (\<lambda>r. reward_code r = rewardCode \<and> reward_user_id r = userId) (user_rewards (db s')) =
                 Some (r\<lparr>is_redeemed := True, redeemed_at := Some current\<rparr>) \<and>
               (\<forall>later. redeemReward later userId rewardCode s' =
                          (Inl (ConflictError ''Reward has already been redeemed''), s'))))) \<and>
   (redeemReward current userId rewardCode s = (Inl err, s1) \<longrightarrow> s1 = s)"
proof (intro conjI impI)
  assume "\<not> (\<exists>r \<in> set (user_rewards (db s)). reward_code r = rewardCode \<and> reward_user_id r = userId)"
  then have "select_reward (db s) rewardCode userId = []"
    by (auto simp add: select_reward_def filter_empty_iff)
  then show "redeemReward current userId rewardCode s = (Inl (NotFoundError ''Reward not found''), s)"
    by (simp add: redeemReward_def)
next
  assume a: "references_ok (db s) \<and>
    find (\<lambda>r. reward_code r = rewardCode \<and> reward_user_id r = userId) (user_rewards (db s)) = Some r"
  assume "is_redeemed r"
  with a show "redeemReward current userId rewardCode s =
           (Inl (ConflictError ''Reward has already been redeemed''), s)"
    by (simp add: redeem_found)
next
  assume a: "references_ok (db s) \<and>
    find (\<lambda>r. reward_code r = rewardCode \<and> reward_user_id r = userId) (user_rewards (db s)) = Some r"
  assume "\<not> is_redeemed r \<and> reward_expires_at r < current"
  with a show "redeemReward current userId rewardCode s = (Inl (GoneError ''Reward has expired''), s)"
    by (simp add: redeem_found)
next
  assume a: "references_ok (db s) \<and>
    find (\<lambda>r. reward_code r = rewardCode \<and> reward_user_id r = userId) (user_rewards (db s)) = Some r"
  assume b: "\<not> is_redeemed r \<and> current \<le> reward_expires_at r"
  let ?s' = "commit (mark_redeemed current (reward_id r) (db s)) s"
  let ?r' = "r\<lparr>is_redeemed := True, redeemed_at := Some current\<rparr>"
  have run: "redeemReward current userId rewardCode s = (Inr ?r', ?s')"
    using a b by (simp add: redeem_found)
  have d: "db ?s' = mark_redeemed current (reward_id r) (db s)"
    by (simp add: commit_def)
  have refs: "references_ok (db ?s')"
    unfolding d using a by (simp add: references_mark_redeemed)
  have f: "find (\<lambda>r. reward_code r = rewardCode \<and> reward_user_id r = userId) (user_rewards (db ?s')) =
             Some ?r'"
    unfolding d using a by (simp add: find_mark_redeemed)
  have again: "redeemReward later userId rewardCode ?s' =
                 (Inl (ConflictError ''Reward has already been redeemed''), ?s')" for later
    using redeem_found [OF refs f, of later] by simp
  show "\<exists>s'. redeemReward current userId rewardCode s = (Inr ?r', s') \<and>
               db s' = mark_redeemed current (reward_id r) (db s) \<and>
               find (\<lambda>r. reward_code r = rewardCode \<and> reward_user_id r = userId) (user_rewards (db s')) =
                 Some ?r' \<and>
               (\<forall>later. redeemReward later userId rewardCode s' =
                          (Inl (ConflictError ''Reward has already been redeemed''), s'))"
    using run d f again by blast
next
  assume "redeemReward current userId rewardCode s = (Inl err, s1)"
  then show "s1 = s"
    by (auto simp add: redeemReward_def split: list.splits if_splits)
qed


lemma rewarded_refs: "references_ok (db rewarded_system)"
  by (simp add: references_ok_def rewarded_system_def example_system_def example_db_def
        example_reward_def example_task_def)

lemma rewarded_find:
  "find (\<lambda>r. reward_code r = ''TLrsABC123'' \<and> reward_user_id r = ''u1'')
     (user_rewards (db rewarded_system)) = Some example_reward"
  by (simp add: rewarded_system_def example_system_def example_db_def example_reward_def)

theorem redeemReward_checks_witness:
  "redeemReward 5000 ''c1'' ''TLrsABC123'' rewarded_system =
     (Inl (NotFoundError ''Reward not found''), rewarded_system) \<and>
   redeemReward 2678400000 ''u1'' ''TLrsABC123'' rewarded_system =
     (Inl (GoneError ''Reward has expired''), rewarded_system) \<and>
   fst (redeemReward 5000 ''u1'' ''TLrsABC123'' rewarded_system) =
     Inr (example_reward\<lparr>is_redeemed := True, redeemed_at := Some 5000\<rparr>) \<and>
   redeemReward 6000 ''u1'' ''TLrsABC123'' (snd (redeemReward 5000 ''u1'' ''TLrsABC123'' rewarded_system)) =
     (Inl (ConflictError ''Reward has already been redeemed''),
      snd (redeemReward 5000 ''u1'' ''TLrsABC123'' rewarded_system))"
proof -
  have n: "\<not> (\<exists>r \<in> set (user_rewards (db rewarded_system)).
                reward_code r = ''TLrsABC123'' \<and> reward_user_id r = ''c1'')"
    by (simp add: rewarded_system_def example_system_def example_db_def example_reward_def)
  have h: "references_ok (db rewarded_system) \<and>
           find (\<lambda>r. reward_code r = ''TLrsABC123'' \<and> reward_user_id r = ''u1'')
             (user_rewards (db rewarded_system)) = Some example_reward"
    using rewarded_refs rewarded_find by simp
  have x: "\<not> is_redeemed example_reward \<and> reward_expires_at example_reward < 2678400000"
    by (simp add: example_reward_def)
  have y: "\<not> is_redeemed example_reward \<and> 5000 \<le> reward_expires_at example_reward"
    by (simp add: example_reward_def)
  from redeemReward_checks [where s = rewarded_system and rewardCode = "''TLrsABC123''"
      and userId = "''c1''" and current = 5000] n
  have 1: "redeemReward 5000 ''c1'' ''TLrsABC123'' rewarded_system =
     (Inl (NotFoundError ''Reward not found''), rewarded_system)"
    by blast
  from redeemReward_checks [where s = rewarded_system and rewardCode = "''TLrsABC123''"
      and userId = "''u1''" and current = 2678400000 and r = example_reward] h x
  have 2: "redeemReward 2678400000 ''u1'' ''TLrsABC123'' rewarded_system =
     (Inl (GoneError ''Reward has expired''), rewarded_system)"
    by blast
  from redeemReward_checks [where s = rewarded_system and rewardCode = "''TLrsABC123''"
      and userId = "''u1''" and current = 5000 and r = example_reward] h y
  obtain s' where s': "redeemReward 5000 ''u1'' ''TLrsABC123'' rewarded_system =
       (Inr (example_reward\<lparr>is_redeemed := True, redeemed_at := Some 5000\<rparr>), s')"
     "\<forall>later. redeemReward later ''u1'' ''TLrsABC123'' s' =
               (Inl (ConflictError ''Reward has already been redeemed''), s')"
    by blast
  from s'(1) have 3: "fst (redeemReward 5000 ''u1'' ''TLrsABC123'' rewarded_system) =
       Inr (example_reward\<lparr>is_redeemed := True, redeemed_at := Some 5000\<rparr>)"
    and sn: "snd (redeemReward 5000 ''u1'' ''TLrsABC123'' rewarded_system) = s'"
    by simp_all
  from s'(2) have 4: "redeemReward 6000 ''u1'' ''TLrsABC123'' s' =
               (Inl (ConflictError ''Reward has already been redeemed''), s')"
    by blast
  from 1 2 3 4 sn show ?thesis by simp
qed

section \<open>Issuing a reward\<close>

lemma example_code: "generateRewardCode 1000 ''0.abc123xyz'' = ''TLrsABC123''"
  by (simp add: generateRewardCode_def digit36_def toUpperCase_def upper_char_def char_of_def bit_0)

text \<open>
  Claim C6, as stated: a collision of the generated code with a stored one is detected
  and the generation is tried again. It fails: \<open>createReward\<close> generates one code, and
  when the table's UNIQUE constraint refuses it, the call throws the database's error
  and no reward is issued.
\<close>

theorem createReward_collision_counterexample:
  "generateRewardCode 1000 ''0.abc123xyz'' = reward_code example_reward \<and>
   createReward 1000 ''r2'' ''0.abc123xyz'' None ''c1'' ''t1'' rewarded_system =
     (Inl (JsError ''duplicate key value violates unique constraint''), rewarded_system)"
  by (simp add: createReward_def example_code insert_reward_def rewarded_system_def
        example_system_def example_db_def example_reward_def example_task_def Let_def)

lemma createReward_success:
  assumes "createReward current new_id random36 expiry_env userId taskId s = (Inr r, s')"
  shows "reward_code r = generateRewardCode current random36"
    and "reward_expires_at r = current + expiryDays expiry_env * 24 * 60 * 60 * 1000"
    and "insert_reward r (db s) = Inr (db s')"
    and "reward_user_id r = userId" "reward_task_id r = taskId"
    and "\<not> is_redeemed r" "redeemed_at r = None"
  using assms
  by (auto simp add: createReward_def Let_def commit_def split: if_splits list.splits sum.splits)

lemma insert_reward_success:
  assumes "insert_reward r d = Inr d'"
  shows "reward_code r \<notin> reward_code ` set (user_rewards d)"
    and "user_rewards d' = user_rewards d @ [r]"
  using assms by (auto simp add: insert_reward_def split: if_splits)

text \<open>
  Claim C6, amended. A reward that \<open>createReward\<close> issues carries the one code that
  \<open>generateRewardCode\<close> made for it, and this code differs from the code of every
  reward stored before, so codes that were distinct stay distinct; its \<open>expires_at\<close> is
  the time of issue plus the configured number of days, 30 when none is configured.
  When the generated code is already taken (and the earlier checks pass), the call
  throws the error of the UNIQUE constraint and leaves the state as it was: the code
  is not generated again.
\<close>

theorem createReward_code_and_expiry:
  "(createReward current new_id rnd expiry_env userId taskId s = (Inr r, s') \<longrightarrow>
      reward_code r = generateRewardCode current rnd \<and>
      reward_code r \<notin> reward_code ` set (user_rewards (db s)) \<and>
      user_rewards (db s') = user_rewards (db s) @ [r] \<and>
      (distinct (map reward_code (user_rewards (db s))) \<longrightarrow>
         distinct (map reward_code (user_rewards (db s')))) \<and>
      reward_expires_at r = current + expiryDays expiry_env * 24 * 60 * 60 * 1000) \<and>
   expiryDays None = 30 \<and>
   (generateRewardCode current rnd \<in> reward_code ` set (user_rewards (db s)) \<and>
    \<not> (\<exists>r \<in> set (user_rewards (db s)). reward_user_id r = userId \<and> reward_task_id r = taskId) \<and>
    (\<exists>t \<in> set (tasks (db s)). task_id t = taskId) \<longrightarrow>
      createReward current new_id rnd expiry_env userId taskId s =
        (Inl (JsError ''duplicate key value violates unique constraint''), s))"
proof (intro conjI impI)
  assume run: "createReward current new_id rnd expiry_env userId taskId s = (Inr r, s')"
  note c = createReward_success [OF run]
  note i = insert_reward_success [OF c(3)]
  show "reward_code r = generateRewardCode current rnd" by (rule c(1))
  show "reward_code r \<notin> reward_code ` set (user_rewards (db s))" by (rule i(1))
  show "user_rewards (db s') = user_rewards (db s) @ [r]" by (rule i(2))
  show "reward_expires_at r = current + expiryDays expiry_env * 24 * 60 * 60 * 1000" by (rule c(2))
  assume "distinct (map reward_code (user_rewards (db s)))"
  then show "distinct (map reward_code (user_rewards (db s')))"
    using i by simp
next
  show "expiryDays None = 30" by (simp add: expiryDays_def)
next
  assume a: "generateRewardCode current rnd \<in> reward_code ` set (user_rewards (db s)) \<and>
    \<not> (\<exists>r \<in> set (user_rewards (db s)). reward_user_id r = userId \<and> reward_task_id r = taskId) \<and>
    (\<exists>t \<in> set (tasks (db s)). task_id t = taskId)"
  then have none: "filter (\<lambda>r. reward_user_id r = userId \<and> reward_task_id r = taskId)
                     (user_rewards (db s)) = []"
    by (simp add: filter_empty_iff)
  from a have "filter (\<lambda>t. task_id t = taskId) (tasks (db s)) \<noteq> []"
    by (simp add: filter_empty_iff)
  then obtain t ts where "filter (\<lambda>t. task_id t = taskId) (tasks (db s)) = t # ts"
    by (cases "filter (\<lambda>t. task_id t = taskId) (tasks (db s))") auto
  with none a show "createReward current new_id rnd expiry_env userId taskId s =
        (Inl (JsError ''duplicate key value violates unique constraint''), s)"
    by (simp add: createReward_def insert_reward_def Let_def)
qed

lemma example_createReward:
  "fst (createReward 1000 ''r1'' ''0.abc123xyz'' None ''u1'' ''t1'' example_system) = Inr example_reward"
  by (simp add: createReward_def example_code insert_reward_def example_system_def
        example_db_def example_reward_def example_task_def expiryDays_def Let_def)

theorem createReward_code_and_expiry_witness:
  "fst (createReward 1000 ''r1'' ''0.abc123xyz'' None ''u1'' ''t1'' example_system) = Inr example_reward \<and>
   reward_code example_reward = generateRewardCode 1000 ''0.abc123xyz'' \<and>
   user_rewards (db (snd (createReward 1000 ''r1'' ''0.abc123xyz'' None ''u1'' ''t1'' example_system))) =
     [example_reward] \<and>
   reward_expires_at example_reward = 1000 + 30 * 24 * 60 * 60 * 1000 \<and>
   createReward 1000 ''r2'' ''0.abc123xyz'' None ''c1'' ''t1'' rewarded_system =
     (Inl (JsError ''duplicate key value violates unique constraint''), rewarded_system)"
proof -
  let ?s' = "snd (createReward 1000 ''r1'' ''0.abc123xyz'' None ''u1'' ''t1'' example_system)"
  have run: "createReward 1000 ''r1'' ''0.abc123xyz'' None ''u1'' ''t1'' example_system =
               (Inr example_reward, ?s')"
    using example_createReward by (simp add: prod_eq_iff)
  have e: "user_rewards (db example_system) = []"
    by (simp add: example_system_def example_db_def)
  have h: "generateRewardCode 1000 ''0.abc123xyz'' \<in> reward_code ` set (user_rewards (db rewarded_system)) \<and>
    \<not> (\<exists>r \<in> set (user_rewards (db rewarded_system)).
          reward_user_id r = ''c1'' \<and> reward_task_id r = ''t1'') \<and>
    (\<exists>t \<in> set (tasks (db rewarded_system)). task_id t = ''t1'')"
    by (simp add: example_code rewarded_system_def example_system_def example_db_def
          example_reward_def example_task_def)
  from createReward_code_and_expiry [where current = 1000 and new_id = "''r1''"
      and rnd = "''0.abc123xyz''" and expiry_env = None and userId = "''u1''"
      and taskId = "''t1''" and s = example_system and r = example_reward and s' = ?s'] run
  have 1: "reward_code example_reward = generateRewardCode 1000 ''0.abc123xyz''"
    and 2: "user_rewards (db ?s') = user_rewards (db example_system) @ [example_reward]"
    and 3: "reward_expires_at example_reward = 1000 + expiryDays None * 24 * 60 * 60 * 1000"
    and 4: "expiryDays None = 30"
    by blast+
  from createReward_code_and_expiry [where current = 1000 and new_id = "''r2''"
      and rnd = "''0.abc123xyz''" and expiry_env = None and userId = "''c1''"
      and taskId = "''t1''" and s = rewarded_system] h
  have 5: "createReward 1000 ''r2'' ''0.abc123xyz'' None ''c1'' ''t1'' rewarded_system =
     (Inl (JsError ''duplicate key value violates unique constraint''), rewarded_system)"
    by blast
  from 1 2 3 4 5 e example_createReward show ?thesis by simp
qed

section \<open>The foreign keys\<close>

text \<open>
  The foreign keys of the schema give what \<open>redeemReward\<close> reads through, and every
  operation that writes to the tables keeps them.
\<close>

lemma foreign_keys_references:
  assumes "foreign_keys_ok d"
  shows "references_ok d"
  using assms unfolding foreign_keys_ok_def references_ok_def by fastforce

lemma createTask_keeps_keys:
  assumes "foreign_keys_ok (db s)"
    and "createTask env max_env new_id companyId taskData s = (r, s')"
  shows "foreign_keys_ok (db s')"
  using assms
  by (auto simp add: createTask_def Let_def commit_def foreign_keys_ok_def
           split: sum.splits if_splits prod.splits)

lemma update_statistics_keeps_keys:
  assumes "foreign_keys_ok d"
  shows "foreign_keys_ok (update_statistics successful taskId d)"
proof -
  let ?f = "\<lambda>t. if task_id t = taskId
                 then t\<lparr>attempt_count := attempt_count t + 1,
                         conversion_count :=
                           (if successful then conversion_count t + 1 else conversion_count t)\<rparr>
                 else t"
  have ids: "task_id ` set (map ?f (tasks d)) = task_id ` set (tasks d)"
    by (rule image_map_same) simp
  have "\<forall>t \<in> set (map ?f (tasks d)). company_id t \<in> user_id ` set (users d)"
    using assms by (auto simp add: foreign_keys_ok_def)
  then show ?thesis
    using assms ids unfolding foreign_keys_ok_def update_statistics_def by simp
qed

lemma recordAttempt_keeps_keys:
  assumes "foreign_keys_ok (db s)"
    and "recordAttempt current new_id taskId userId attemptData s = (r, s')"
  shows "foreign_keys_ok (db s')"
proof (cases r)
  case (Inl e)
  with assms(2) have "s' = s"
    by (auto simp add: recordAttempt_def Let_def split: if_splits list.splits sum.splits)
  with assms(1) show ?thesis by simp
next
  case (Inr a)
  with assms(2) have run: "recordAttempt current new_id taskId userId attemptData s = (Inr a, s')"
    by simp
  note r = recordAttempt_success [OF run]
  from run obtain d1 where "insert_attempt a (db s) = Inr d1"
    by (auto simp add: recordAttempt_def Let_def split: if_splits list.splits sum.splits)
  then have "attempt_task_id a \<in> task_id ` set (tasks (db s))"
    "attempt_user_id a \<in> user_id ` set (users (db s))"
    by (auto simp add: insert_attempt_def split: if_splits)
  with assms(1) have "foreign_keys_ok ((db s)\<lparr>task_attempts := task_attempts (db s) @ [a]\<rparr>)"
    by (auto simp add: foreign_keys_ok_def)
  then have "foreign_keys_ok
      (update_task_attempt_counts a ((db s)\<lparr>task_attempts := task_attempts (db s) @ [a]\<rparr>))"
    unfolding trigger_is_update by (rule update_statistics_keeps_keys)
  then show ?thesis
    unfolding r(3) by (rule update_statistics_keeps_keys)
qed

lemma createReward_keeps_keys:
  assumes "foreign_keys_ok (db s)"
    and "createReward current new_id rnd expiry_env userId taskId s = (r, s')"
  shows "foreign_keys_ok (db s')"
proof (cases r)
  case (Inl e)
  with assms(2) have "s' = s"
    by (auto simp add: createReward_def Let_def split: if_splits list.splits sum.splits)
  with assms(1) show ?thesis by simp
next
  case (Inr x)
  with assms(2) have run: "createReward current new_id rnd expiry_env userId taskId s = (Inr x, s')"
    by simp
  note c = createReward_success [OF run]
  from c(3) have "reward_user_id x \<in> user_id ` set (users (db s))"
    "reward_task_id x \<in> task_id ` set (tasks (db s))"
    "db s' = (db s)\<lparr>user_rewards := user_rewards (db s) @ [x]\<rparr>"
    by (auto simp add: insert_reward_def split: if_splits)
  with assms(1) show ?thesis by (auto simp add: foreign_keys_ok_def)
qed

lemma redeemReward_keeps_keys:
  assumes "foreign_keys_ok (db s)"
    and "redeemReward current userId rewardCode s = (r, s')"
  shows "foreign_keys_ok (db s')"
proof -
  have "db s' = db s \<or> (\<exists>rid. db s' = mark_redeemed current rid (db s))"
    using assms(2)
    by (auto simp add: redeemReward_def commit_def split: list.splits if_splits)
  then show ?thesis
    using assms(1) by (auto simp add: foreign_keys_ok_def mark_redeemed_def)
qed

section \<open>Rounding to the nearest double\<close>

lemma round_even_bounds: "of_int (round_even x) \<le> x + 1 / 2" "x - 1 / 2 \<le> of_int (round_even x)"
  unfolding round_even_def Let_def by (auto simp add: not_less) linarith+

lemma round_even_floor: "\<lfloor>x\<rfloor> \<le> round_even x" "round_even x \<le> \<lfloor>x\<rfloor> + 1"
  unfolding round_even_def Let_def by auto

lemma round_even_of_int [simp]: "round_even (of_int n) = n"
  unfolding round_even_def Let_def by simp

lemma round_even_mono:
  assumes "x \<le> y"
  shows "round_even x \<le> round_even y"
proof (cases "\<lfloor>x\<rfloor> = \<lfloor>y\<rfloor>")
  case True
  then have "x - of_int \<lfloor>x\<rfloor> \<le> y - of_int \<lfloor>y\<rfloor>" using assms by simp
  then show ?thesis
    using True unfolding round_even_def Let_def by auto
next
  case False
  then have "\<lfloor>x\<rfloor> < \<lfloor>y\<rfloor>" using assms floor_mono [OF assms] by linarith
  then have "round_even x \<le> \<lfloor>y\<rfloor>" using round_even_floor(2) [of x] by linarith
  then show ?thesis using round_even_floor(1) [of y] by linarith
qed

lemma round_even_minus: "round_even (- x) = - round_even x"
proof (cases "x \<in> \<int>")
  case True
  then obtain n where "x = of_int n" by (auto elim: Ints_cases)
  then show ?thesis by (simp flip: of_int_minus)
next
  case False
  then have ne: "x \<noteq> of_int \<lfloor>x\<rfloor>" by (metis Ints_of_int)
  then have f: "\<lfloor>- x\<rfloor> = - \<lfloor>x\<rfloor> - 1"
    by (simp add: floor_minus ceiling_altdef)
  show ?thesis
    unfolding round_even_def Let_def f
    by (auto simp add: algebra_simps)
qed

lemma two_powi_pos [simp]: "0 < (2::rat) powi e"
  by simp

lemma two_powi_mono: "e \<le> e' \<Longrightarrow> (2::rat) powi e \<le> 2 powi e'"
  by (rule power_int_increasing) simp_all

lemma two_powi_less_exp:
  assumes "(2::rat) powi e < 2 powi e'"
  shows "e < e'"
proof (rule ccontr)
  assume "\<not> e < e'"
  then have "e' \<le> e" by simp
  then have "(2::rat) powi e' \<le> 2 powi e" by (rule two_powi_mono)
  with assms show False by simp
qed

lemma bitlen_pos: "0 < n \<Longrightarrow> 1 \<le> bitlen n"
  using bitlen_eq_zero_iff [of n] bitlen_nonneg [of n] by linarith

lemma expo_bounds:
  assumes "0 < x"
  shows "2 powi (expo x) \<le> x" and "x < 2 powi (expo x + 1)"
proof -
  have "2 powi (expo x) \<le> x \<and> x < 2 powi (expo x + 1)"
  proof (cases "1 \<le> x")
    case True
    let ?n = "\<lfloor>x\<rfloor>"
    let ?b = "bitlen ?n"
    have n: "0 < ?n" using True by simp
    have b: "1 \<le> ?b" using n by (rule bitlen_pos)
    from bitlen_bounds [OF n] have lo: "2 ^ nat (?b - 1) \<le> ?n" and hi: "?n < 2 ^ nat ?b"
      by simp_all
    have e: "expo x = ?b - 1" using True by (simp add: expo_def)
    have "(2::rat) powi (?b - 1) = of_int (2 ^ nat (?b - 1))"
      using b by (simp add: power_int_nonneg_exp)
    also have "\<dots> \<le> of_int ?n" using lo by (simp only: of_int_le_iff)
    also have "\<dots> \<le> x" by simp
    finally have 1: "2 powi (expo x) \<le> x" by (simp add: e)
    have "?n + 1 \<le> 2 ^ nat ?b" using hi by simp
    then have c2: "(of_int (?n + 1) :: rat) \<le> of_int (2 ^ nat ?b)" by (simp only: of_int_le_iff)
    have c1: "x < of_int (?n + 1)" using floor_correct [of x] by blast
    have pb: "(2::rat) powi ?b = of_int (2 ^ nat ?b)"
      using b by (simp add: power_int_nonneg_exp)
    have "x < 2 powi ?b" unfolding pb using c1 c2 by (rule less_le_trans)
    then have "x < 2 powi (expo x + 1)" by (simp add: e)
    with 1 show ?thesis by simp
  next
    case False
    let ?y = "1 / x"
    let ?m = "\<lceil>?y\<rceil>"
    let ?k = "bitlen (?m - 1)"
    have y: "1 < ?y" using False assms by simp
    have m: "0 < ?m - 1" using y by (simp add: less_ceiling_iff)
    have k: "1 \<le> ?k" using m by (rule bitlen_pos)
    from bitlen_bounds [OF m] have lo: "2 ^ nat (?k - 1) \<le> ?m - 1" and hi: "?m - 1 < 2 ^ nat ?k"
      by simp_all
    have e: "expo x = - ?k" using False by (simp add: expo_def)
    have "?m \<le> 2 ^ nat ?k" using hi by simp
    then have a2: "(of_int ?m :: rat) \<le> of_int (2 ^ nat ?k)" by (simp only: of_int_le_iff)
    have a1: "?y \<le> of_int ?m" by simp
    have pk: "(2::rat) powi ?k = of_int (2 ^ nat ?k)"
      using k by (simp add: power_int_nonneg_exp)
    have yk: "?y \<le> 2 powi ?k"
      unfolding pk using a1 a2 by (rule order_trans)
    have b1: "(of_int (2 ^ nat (?k - 1)) :: rat) \<le> of_int (?m - 1)"
      using lo by (simp only: of_int_le_iff)
    have b2: "of_int (?m - 1) < ?y"
      using ceiling_correct [of ?y] by simp
    have pk': "(2::rat) powi (?k - 1) = of_int (2 ^ nat (?k - 1))"
      using k by (simp add: power_int_nonneg_exp)
    have ky: "2 powi (?k - 1) < ?y"
      unfolding pk' using b1 b2 by (rule le_less_trans)
    define P where "P = (2::rat) powi ?k"
    define Q where "Q = (2::rat) powi (?k - 1)"
    have pos: "0 < P" "0 < Q" by (simp_all add: P_def Q_def)
    have "1 \<le> P * x"
      using yk assms by (simp add: P_def pos_divide_le_eq)
    then have "1 / P \<le> x"
      using pos(1) by (simp add: pos_divide_le_eq mult.commute)
    moreover have "2 powi (- ?k) = 1 / P"
      by (simp add: P_def power_int_minus_divide)
    ultimately have 1: "2 powi (expo x) \<le> x" by (simp add: e)
    have "Q * x < 1"
      using ky assms by (simp add: Q_def pos_less_divide_eq)
    then have "x < 1 / Q"
      using pos(2) by (simp add: pos_less_divide_eq mult.commute)
    moreover have "2 powi (- (?k - 1)) = 1 / Q"
      by (simp only: Q_def power_int_minus_divide)
    ultimately have "x < 2 powi (expo x + 1)" by (simp add: e)
    with 1 show ?thesis by simp
  qed
  then show "2 powi (expo x) \<le> x" and "x < 2 powi (expo x + 1)" by simp_all
qed

lemma expo_unique:
  assumes "0 < x" "2 powi e \<le> x" "x < 2 powi (e + 1)"
  shows "expo x = e"
proof -
  note b = expo_bounds [OF assms(1)]
  have "(2::rat) powi e < 2 powi (expo x + 1)" using assms(2) b(2) by simp
  then have "e < expo x + 1" by (rule two_powi_less_exp)
  moreover have "(2::rat) powi (expo x) < 2 powi (e + 1)" using assms(3) b(1) by simp
  then have "expo x < e + 1" by (rule two_powi_less_exp)
  ultimately show ?thesis by simp
qed

lemma expo_mono:
  assumes "0 < x" "x \<le> y"
  shows "expo x \<le> expo y"
proof -
  have "0 < y" using assms by simp
  have "(2::rat) powi (expo x) \<le> x" using assms(1) by (rule expo_bounds)
  also have "\<dots> \<le> y" by (rule assms(2))
  also have "\<dots> < 2 powi (expo y + 1)" using \<open>0 < y\<close> by (rule expo_bounds)
  finally have "expo x < expo y + 1" by (rule two_powi_less_exp)
  then show ?thesis by simp
qed

lemma fl_zero [simp]: "fl 0 = 0"
  by (simp add: fl_def)

lemma fl_pos_eq:
  assumes "0 < x"
  shows "fl x = of_int (round_even (x / 2 powi (expo x - 52))) * 2 powi (expo x - 52)"
  using assms by (simp add: fl_def Let_def)

lemma fl_minus: "fl (- x) = - fl x"
  by (simp add: fl_def Let_def round_even_minus)

lemma fl_eqI:
  assumes "0 < x" "2 powi e \<le> x" "x < 2 powi (e + 1)"
    and "round_even (x / 2 powi (e - 52)) = m"
  shows "fl x = of_int m * 2 powi (e - 52)"
  using assms expo_unique [OF assms(1-3)] by (simp add: fl_pos_eq)

lemma scale_lo: "2 ^ 52 * (2::rat) powi (e - 52) = 2 powi e"
proof -
  have "(2::rat) powi (52 + (e - 52)) = 2 powi 52 * 2 powi (e - 52)"
    by (rule power_int_add) simp
  moreover have "52 + (e - 52) = e" by simp
  ultimately show ?thesis by simp
qed

lemma scale_hi: "2 ^ 53 * (2::rat) powi (e - 52) = 2 powi (e + 1)"
proof -
  have "(2::rat) powi (53 + (e - 52)) = 2 powi 53 * 2 powi (e - 52)"
    by (rule power_int_add) simp
  moreover have "53 + (e - 52) = e + 1" by simp
  ultimately show ?thesis by simp
qed

lemma scaled_bounds:
  assumes "0 < x"
  shows "2 ^ 52 \<le> x / 2 powi (expo x - 52)" "x / 2 powi (expo x - 52) \<le> 2 ^ 53"
proof -
  let ?u = "(2::rat) powi (expo x - 52)"
  have u: "0 < ?u" by simp
  have lo: "2 ^ 52 * ?u = 2 powi (expo x)" by (rule scale_lo)
  have hi: "2 ^ 53 * ?u = 2 powi (expo x + 1)" by (rule scale_hi)
  have "2 ^ 52 * ?u \<le> x" unfolding lo using assms by (rule expo_bounds)
  then show "2 ^ 52 \<le> x / ?u" using u by (simp add: pos_le_divide_eq)
  have "x \<le> 2 ^ 53 * ?u" unfolding hi using expo_bounds(2) [OF assms] by simp
  then show "x / ?u \<le> 2 ^ 53" using u by (simp add: pos_divide_le_eq)
qed

lemma fl_bounds:
  assumes "0 < x"
  shows "2 powi (expo x) \<le> fl x" "fl x \<le> 2 powi (expo x + 1)"
proof -
  let ?u = "(2::rat) powi (expo x - 52)"
  let ?m = "round_even (x / ?u)"
  have u: "0 < ?u" by simp
  have lo: "2 ^ 52 * ?u = 2 powi (expo x)" by (rule scale_lo)
  have hi: "2 ^ 53 * ?u = 2 powi (expo x + 1)" by (rule scale_hi)
  have "round_even (of_int (2 ^ 52)) \<le> ?m"
    by (rule round_even_mono) (use scaled_bounds(1) [OF assms] in simp)
  then have "(of_int (2 ^ 52) :: rat) \<le> of_int ?m"
    by (simp only: round_even_of_int of_int_le_iff)
  then have a: "of_int (2 ^ 52) * ?u \<le> of_int ?m * ?u"
    using u by (simp only: mult_le_cancel_right_pos)
  have "2 powi (expo x) = of_int (2 ^ 52) * ?u" using lo by simp
  also note a
  also have "of_int ?m * ?u = fl x" by (simp only: fl_pos_eq [OF assms])
  finally show "2 powi (expo x) \<le> fl x" .
  have "?m \<le> round_even (of_int (2 ^ 53))"
    by (rule round_even_mono) (use scaled_bounds(2) [OF assms] in simp)
  then have "(of_int ?m :: rat) \<le> of_int (2 ^ 53)"
    by (simp only: round_even_of_int of_int_le_iff)
  then have b: "of_int ?m * ?u \<le> of_int (2 ^ 53) * ?u"
    using u by (simp only: mult_le_cancel_right_pos)
  have "fl x = of_int ?m * ?u" by (simp only: fl_pos_eq [OF assms])
  also note b
  also have "of_int (2 ^ 53) * ?u = 2 powi (expo x + 1)" using hi by simp
  finally show "fl x \<le> 2 powi (expo x + 1)" .
qed

lemma fl_pos: "0 < x \<Longrightarrow> 0 < fl x"
  using fl_bounds(1) [of x] two_powi_pos [of "expo x"] by linarith

lemma fl_mono_pos:
  assumes "0 < x" "x \<le> y"
  shows "fl x \<le> fl y"
proof -
  have y: "0 < y" using assms by simp
  have le: "expo x \<le> expo y" using assms by (rule expo_mono)
  show ?thesis
  proof (cases "expo x = expo y")
    case True
    let ?u = "(2::rat) powi (expo y - 52)"
    have "x / ?u \<le> y / ?u" using assms(2) by (simp add: divide_right_mono)
    then have "round_even (x / ?u) \<le> round_even (y / ?u)" by (rule round_even_mono)
    then have "(of_int (round_even (x / ?u)) :: rat) * ?u \<le> of_int (round_even (y / ?u)) * ?u"
      by (simp add: mult_right_mono)
    then show ?thesis
      by (simp add: fl_pos_eq [OF assms(1)] fl_pos_eq [OF y] True)
  next
    case False
    with le have "expo x + 1 \<le> expo y" by simp
    then have "(2::rat) powi (expo x + 1) \<le> 2 powi (expo y)" by (rule two_powi_mono)
    with fl_bounds(2) [OF assms(1)] fl_bounds(1) [OF y] show ?thesis by linarith
  qed
qed

lemma fl_mono:
  assumes "x \<le> y"
  shows "fl x \<le> fl y"
proof -
  consider "0 < x" | "x = 0" | "x < 0" "0 \<le> y" | "x < 0" "y < 0" by linarith
  then show ?thesis
  proof cases
    case 1
    then show ?thesis using assms by (rule fl_mono_pos)
  next
    case 2
    show ?thesis
    proof (cases "y = 0")
      case True
      with 2 show ?thesis by simp
    next
      case False
      with 2 assms have "0 < y" by simp
      then have "0 < fl y" by (rule fl_pos)
      with 2 show ?thesis by simp
    qed
  next
    case 3
    have "0 < fl (- x)" using 3(1) by (simp add: fl_pos)
    then have "fl x < 0" by (simp add: fl_minus)
    moreover have "0 \<le> fl y"
    proof (cases "y = 0")
      case True
      then show ?thesis by simp
    next
      case False
      with 3(2) have "0 < y" by simp
      then show ?thesis using fl_pos [of y] by simp
    qed
    ultimately show ?thesis by simp
  next
    case 4
    have "fl (- y) \<le> fl (- x)"
      by (rule fl_mono_pos) (use 4 assms in simp_all)
    then show ?thesis by (simp add: fl_minus)
  qed
qed

lemma fl_nonneg: "0 \<le> x \<Longrightarrow> 0 \<le> fl x"
  using fl_mono [of 0 x] by simp

lemma fl_nonpos: "x \<le> 0 \<Longrightarrow> fl x \<le> 0"
  using fl_mono [of x 0] by simp

lemma fl_of_int:
  assumes "0 < n" "n < 2 ^ 53"
  shows "fl (of_int n) = of_int n"
proof -
  let ?x = "of_int n :: rat"
  have x: "0 < ?x" using assms(1) by simp
  have "2 powi (expo ?x) \<le> ?x" using x by (rule expo_bounds)
  also have "?x < of_int (2 ^ 53)" using assms(2) by (simp only: of_int_less_iff)
  also have "(of_int (2 ^ 53) :: rat) = 2 powi 53" by simp
  finally have "expo ?x < 53" by (rule two_powi_less_exp)
  then have e: "0 \<le> 52 - expo ?x" by simp
  have "(2::rat) powi (expo ?x - 52) = 1 / 2 powi (52 - expo ?x)"
    using power_int_minus_divide [of "2::rat" "52 - expo ?x"] by simp
  also have "\<dots> = 1 / of_int (2 ^ nat (52 - expo ?x))"
    using e by (simp add: power_int_nonneg_exp)
  finally have u: "(2::rat) powi (expo ?x - 52) = 1 / of_int (2 ^ nat (52 - expo ?x))" .
  have "?x / 2 powi (expo ?x - 52) = of_int (n * 2 ^ nat (52 - expo ?x))"
    unfolding u by simp
  then have "round_even (?x / 2 powi (expo ?x - 52)) = n * 2 ^ nat (52 - expo ?x)"
    by (simp only: round_even_of_int)
  then show ?thesis
    unfolding fl_pos_eq [OF x] u by simp
qed

text \<open>The relative error of one rounding is at most \<open>2 ^ - 53\<close>.\<close>

lemma fl_error_pos:
  assumes "0 < x"
  shows "\<bar>fl x - x\<bar> \<le> x / 2 ^ 53"
proof -
  let ?u = "(2::rat) powi (expo x - 52)"
  let ?m = "round_even (x / ?u)"
  have u: "0 < ?u" by simp
  have "2 ^ 52 * ?u \<le> x" unfolding scale_lo using assms by (rule expo_bounds)
  then have half: "?u / 2 \<le> x / 2 ^ 53" by simp
  have "\<bar>of_int ?m - x / ?u\<bar> \<le> 1 / 2"
    using round_even_bounds [of "x / ?u"] by linarith
  then have "\<bar>of_int ?m - x / ?u\<bar> * ?u \<le> 1 / 2 * ?u"
    using u by (simp only: mult_le_cancel_right_pos)
  moreover have "\<bar>of_int ?m - x / ?u\<bar> * ?u = \<bar>of_int ?m * ?u - x\<bar>"
  proof -
    have "\<bar>of_int ?m - x / ?u\<bar> * ?u = \<bar>(of_int ?m - x / ?u) * ?u\<bar>"
      using u by (simp add: abs_mult)
    also have "(of_int ?m - x / ?u) * ?u = of_int ?m * ?u - x"
      using u by (simp add: left_diff_distrib)
    finally show ?thesis .
  qed
  ultimately have "\<bar>of_int ?m * ?u - x\<bar> \<le> ?u / 2" by simp
  then have "\<bar>fl x - x\<bar> \<le> ?u / 2" by (simp only: fl_pos_eq [OF assms])
  then show ?thesis using half by (rule order_trans)
qed

lemma fl_error: "\<bar>fl x - x\<bar> \<le> \<bar>x\<bar> / 2 ^ 53"
proof -
  consider "0 < x" | "x = 0" | "x < 0" by linarith
  then show ?thesis
  proof cases
    case 1
    then show ?thesis using fl_error_pos [of x] by simp
  next
    case 2
    then show ?thesis by simp
  next
    case 3
    then have "\<bar>fl (- x) - (- x)\<bar> \<le> (- x) / 2 ^ 53" by (intro fl_error_pos) simp
    moreover have "\<bar>fl (- x) - (- x)\<bar> = \<bar>fl x - x\<bar>"
      unfolding fl_minus by (simp add: abs_minus_commute)
    ultimately show ?thesis using 3 by simp
  qed
qed

section \<open>The time bonus\<close>

lemma fl_numeral:
  assumes "(numeral k :: int) < 2 ^ 53"
  shows "fl (numeral k) = numeral k"
  using fl_of_int [of "numeral k"] assms by simp

lemma fl_one [simp]: "fl 1 = 1"
  using fl_of_int [of 1] by simp

lemma timeBonus_nonneg: "0 \<le> timeBonus t"
proof -
  have "0 \<le> timeRatio t" by (simp add: timeRatio_def)
  then have "0 \<le> fl (timeRatio t * 50)" by (simp add: fl_nonneg)
  then show ?thesis by (simp add: timeBonus_def)
qed

lemma timeRatio_antimono:
  assumes "t1 \<le> t2"
  shows "timeRatio t2 \<le> timeRatio t1"
proof -
  have "(of_int t1 :: rat) / 1000 \<le> of_int t2 / 1000"
    using assms by (simp add: divide_right_mono)
  then have "timeTakenSeconds t1 \<le> timeTakenSeconds t2"
    unfolding timeTakenSeconds_def by (rule fl_mono)
  then have "300 - timeTakenSeconds t2 \<le> 300 - timeTakenSeconds t1" by simp
  then have "fl (300 - timeTakenSeconds t2) \<le> fl (300 - timeTakenSeconds t1)" by (rule fl_mono)
  then have "fl (300 - timeTakenSeconds t2) / 300 \<le> fl (300 - timeTakenSeconds t1) / 300"
    by (simp add: divide_right_mono)
  then have "fl (fl (300 - timeTakenSeconds t2) / 300) \<le> fl (fl (300 - timeTakenSeconds t1) / 300)"
    by (rule fl_mono)
  then show ?thesis unfolding timeRatio_def by (rule max.mono [OF order_refl])
qed

lemma timeBonus_antimono:
  assumes "t1 \<le> t2"
  shows "timeBonus t2 \<le> timeBonus t1"
proof -
  have "timeRatio t2 * 50 \<le> timeRatio t1 * 50"
    using timeRatio_antimono [OF assms] by simp
  then have "fl (timeRatio t2 * 50) \<le> fl (timeRatio t1 * 50)" by (rule fl_mono)
  then show ?thesis unfolding timeBonus_def by (rule floor_mono)
qed

lemma timeBonus_at_zero: "timeBonus 0 = 50"
  by (simp add: timeBonus_def timeRatio_def timeTakenSeconds_def fl_numeral)

lemma timeBonus_late:
  assumes "300000 \<le> t"
  shows "timeBonus t = 0"
proof -
  have "fl 300 \<le> fl (of_int t / 1000)"
    by (rule fl_mono) (use assms in simp)
  then have "300 \<le> timeTakenSeconds t" by (simp add: timeTakenSeconds_def fl_numeral)
  then have "fl (300 - timeTakenSeconds t) \<le> 0" by (simp add: fl_nonpos)
  then have "fl (300 - timeTakenSeconds t) / 300 \<le> 0" by (simp add: divide_le_0_iff)
  then have "fl (fl (300 - timeTakenSeconds t) / 300) \<le> 0" by (rule fl_nonpos)
  then have "timeRatio t = 0" by (simp add: timeRatio_def max_def)
  then show ?thesis by (simp add: timeBonus_def)
qed

lemma round_even_eqI:
  assumes "of_int m - 1 / 2 < x" "x < of_int m + 1 / 2"
  shows "round_even x = m"
proof (cases "of_int m \<le> x")
  case True
  then have "\<lfloor>x\<rfloor> = m" using assms(2) by (intro floor_unique) simp_all
  then show ?thesis using assms(2) by (simp add: round_even_def Let_def)
next
  case False
  then have "\<lfloor>x\<rfloor> = m - 1" using assms(1) by (intro floor_unique) simp_all
  then show ?thesis using assms(1) False by (auto simp add: round_even_def Let_def)
qed

lemma fl_nearest:
  assumes "0 < x" "2 powi e \<le> x" "x < 2 powi (e + 1)"
    and "of_int m - 1 / 2 < x / 2 powi (e - 52)" "x / 2 powi (e - 52) < of_int m + 1 / 2"
  shows "fl x = of_int m * 2 powi (e - 52)"
  using assms(1-3) by (rule fl_eqI) (use assms(4,5) in \<open>rule round_even_eqI\<close>)

lemma ratio_126: "fl (29 / 50) = 5224175567749775 / 2 ^ 53"
proof -
  have "fl (29 / 50) = of_int 5224175567749775 * 2 powi (- 1 - 52)"
    by (rule fl_nearest) simp_all
  then show ?thesis by simp
qed

lemma product_126: "fl (5224175567749775 / 2 ^ 53 * 50) = 8162774324609023 / 2 ^ 48"
proof -
  have "fl (5224175567749775 / 2 ^ 53 * 50) = of_int 8162774324609023 * 2 powi (4 - 52)"
    by (rule fl_nearest) simp_all
  then show ?thesis by simp
qed

lemma timeBonus_126: "timeBonus 126000 = 28"
proof -
  have s: "timeTakenSeconds 126000 = 126" by (simp add: timeTakenSeconds_def fl_numeral)
  have r: "timeRatio 126000 = 5224175567749775 / 2 ^ 53"
    unfolding timeRatio_def s by (simp add: fl_numeral ratio_126)
  show ?thesis unfolding timeBonus_def r product_126 by (rule floor_unique) simp_all
qed

lemma ratio_45: "fl (17 / 20) = 7656119366529843 / 2 ^ 53"
proof -
  have "fl (17 / 20) = of_int 7656119366529843 * 2 powi (- 1 - 52)"
    by (rule fl_nearest) simp_all
  then show ?thesis by simp
qed

lemma product_45: "fl (7656119366529843 / 2 ^ 53 * 50) = 85 / 2"
proof -
  have "fl (7656119366529843 / 2 ^ 53 * 50) = of_int 5981343255101440 * 2 powi (5 - 52)"
    by (rule fl_nearest) simp_all
  then show ?thesis by simp
qed

lemma timeBonus_45: "timeBonus 45000 = 42"
proof -
  have s: "timeTakenSeconds 45000 = 45" by (simp add: timeTakenSeconds_def fl_numeral)
  have r: "timeRatio 45000 = 7656119366529843 / 2 ^ 53"
    unfolding timeRatio_def s by (simp add: fl_numeral ratio_45)
  show ?thesis unfolding timeBonus_def r product_45 by (rule floor_unique) simp_all
qed

text \<open>
  Four roundings separate the bonus of the code from the exact quotient
  \<open>(300000 - t) / 6000\<close>; together they move it by less than \<open>1 / 12000\<close>. The quotient is
  a multiple of \<open>1 / 6000\<close>, so the floor can differ only where the quotient is an integer,
  that is at the multiples of 6000 ms, and there by one at most.
\<close>

lemma timeBonus_near:
  assumes "0 \<le> t" "t \<le> 300000"
  shows "\<bar>fl (timeRatio t * 50) - of_int (300000 - t) / 6000\<bar> < 1 / 12000"
proof -
  define a :: rat where "a = of_int t / 1000"
  define s where "s = fl a"
  define d where "d = fl (300 - s)"
  define r' where "r' = fl (d / 300)"
  define r where "r = max 0 r'"
  define q where "q = fl (r * 50)"
  define e :: rat where "e = 1 / 2 ^ 53"
  have e: "0 < e" "e \<le> 1 / 1000000000000000" by (simp_all add: e_def)
  have a: "0 \<le> a" "a \<le> 300" using assms by (simp_all add: a_def)
  have "\<bar>s - a\<bar> \<le> \<bar>a\<bar> * e" unfolding s_def e_def using fl_error [of a] by simp
  moreover have "\<bar>a\<bar> * e \<le> 300 * e" using a e by (intro mult_right_mono) simp_all
  ultimately have s: "\<bar>s - a\<bar> \<le> 300 * e" by linarith
  have "\<bar>d - (300 - s)\<bar> \<le> \<bar>300 - s\<bar> * e"
    unfolding d_def e_def using fl_error [of "300 - s"] by simp
  moreover have "\<bar>300 - s\<bar> * e \<le> 301 * e"
    using a s e by (intro mult_right_mono) linarith+
  ultimately have d: "\<bar>d - (300 - a)\<bar> \<le> 601 * e" using s by linarith
  have "\<bar>r' - d / 300\<bar> \<le> \<bar>d / 300\<bar> * e"
    unfolding r'_def e_def using fl_error [of "d / 300"] by simp
  moreover have "\<bar>d / 300\<bar> * e \<le> 2 * e"
  proof (rule mult_right_mono)
    have "\<bar>d\<bar> \<le> 600" using a d e by linarith
    then show "\<bar>d / 300\<bar> \<le> 2" by simp
    show "0 \<le> e" using e by simp
  qed
  moreover have "\<bar>d / 300 - (300 - a) / 300\<bar> \<le> 601 * e / 300"
  proof -
    have "\<bar>x / 300\<bar> \<le> y / 300" if "\<bar>x\<bar> \<le> y" for x y :: rat
      using that by simp
    from this [OF d] show ?thesis by (simp only: diff_divide_distrib)
  qed
  ultimately have r': "\<bar>r' - (300 - a) / 300\<bar> \<le> 5 * e" using e by linarith
  have g: "0 \<le> (300 - a) / 300" "(300 - a) / 300 \<le> 1" using a by simp_all
  have r: "\<bar>r - (300 - a) / 300\<bar> \<le> 5 * e" "0 \<le> r" "r \<le> 2"
    using r' g e unfolding r_def by linarith+
  have "\<bar>q - r * 50\<bar> \<le> \<bar>r * 50\<bar> * e"
    unfolding q_def e_def using fl_error [of "r * 50"] by simp
  moreover have "\<bar>r * 50\<bar> * e \<le> 100 * e"
  proof (rule mult_right_mono)
    show "\<bar>r * 50\<bar> \<le> 100" using r by linarith
    show "0 \<le> e" using e by simp
  qed
  moreover have "(300 - a) / 6 = (300 - a) / 300 * 50" by simp
  ultimately have "\<bar>q - (300 - a) / 6\<bar> \<le> 350 * e" using r(1) by linarith
  then have "\<bar>q - (300 - a) / 6\<bar> < 1 / 12000" using e by linarith
  moreover have "(300 - a) / 6 = of_int (300000 - t) / 6000" by (simp add: a_def)
  moreover have "q = fl (timeRatio t * 50)"
    by (simp add: q_def r_def r'_def d_def s_def a_def timeRatio_def timeTakenSeconds_def)
  ultimately show ?thesis by simp
qed

lemma bonus_formula_div:
  assumes "0 \<le> t" "t \<le> 300000"
  shows "bonus_formula t = (300000 - t) div 6000"
proof -
  define x :: rat where "x = (300 - of_int t / 1000) / 300"
  have "0 \<le> x" using assms by (simp add: x_def)
  then have "max 0 x = x" by (rule max_absorb2)
  moreover have "50 * x = of_int (300000 - t) / of_int 6000" by (simp add: x_def)
  ultimately have "bonus_formula t = \<lfloor>(of_int (300000 - t) :: rat) / of_int 6000\<rfloor>"
    by (simp only: bonus_formula_def x_def [symmetric])
  then show ?thesis by (simp only: floor_divide_of_int_eq)
qed

lemma bonus_formula_late: "300000 < t \<Longrightarrow> bonus_formula t = 0"
  by (simp add: bonus_formula_def max_def)

lemma of_int_window:
  assumes "a \<le> j" "j \<le> b"
  shows "(of_int a :: rat) \<le> of_int j" and "(of_int j :: rat) \<le> of_int b"
  using assms by (simp_all only: of_int_le_iff)

lemma timeBonus_window:
  assumes "0 \<le> t" "t \<le> 300000"
  defines "k \<equiv> (300000 - t) div 6000" and "j \<equiv> (300000 - t) mod 6000"
  shows "of_int k + of_int j / 6000 - 1 / 12000 < fl (timeRatio t * 50)"
    and "fl (timeRatio t * 50) < of_int k + of_int j / 6000 + 1 / 12000"
proof -
  have "300000 - t = 6000 * k + j" by (simp add: k_def j_def)
  then have "(of_int (300000 - t) :: rat) = of_int (6000 * k + j)" by (rule arg_cong)
  then have eq: "(of_int (300000 - t) :: rat) / 6000 = of_int k + of_int j / 6000" by simp
  have "\<bar>fl (timeRatio t * 50) - (of_int k + of_int j / 6000)\<bar> < 1 / 12000"
    using timeBonus_near [OF assms(1,2)] by (simp only: eq)
  then show "of_int k + of_int j / 6000 - 1 / 12000 < fl (timeRatio t * 50)"
    and "fl (timeRatio t * 50) < of_int k + of_int j / 6000 + 1 / 12000"
    by linarith+
qed

lemma timeBonus_off_grid:
  assumes "0 \<le> t" "\<not> 6000 dvd t"
  shows "timeBonus t = bonus_formula t"
proof (cases "t \<le> 300000")
  case True
  define k where "k = (300000 - t) div 6000"
  define j where "j = (300000 - t) mod 6000"
  have "\<not> 6000 dvd (300000 - t)"
  proof
    assume "6000 dvd (300000 - t)"
    moreover have "(6000 :: int) dvd 300000" by simp
    ultimately have "6000 dvd (300000 - (300000 - t))" by (rule dvd_diff [rotated])
    then show False using assms(2) by simp
  qed
  then have "j \<noteq> 0" by (simp add: j_def dvd_eq_mod_eq_0)
  moreover have "0 \<le> j" "j < 6000" by (simp_all add: j_def)
  ultimately have "1 \<le> j" "j \<le> 5999" by linarith+
  then have j: "(1 :: rat) \<le> of_int j" "(of_int j :: rat) \<le> 5999"
    using of_int_window [of 1 j 5999] by simp_all
  note w = timeBonus_window [OF assms(1) True, folded k_def j_def]
  have "timeBonus t = k"
    unfolding timeBonus_def using w j by (intro floor_unique) linarith+
  then show ?thesis by (simp add: bonus_formula_div [OF assms(1) True] k_def)
next
  case False
  then show ?thesis by (simp add: timeBonus_late bonus_formula_late)
qed

lemma timeBonus_on_grid:
  assumes "0 \<le> t"
  shows "bonus_formula t - 1 \<le> timeBonus t" and "timeBonus t \<le> bonus_formula t"
proof -
  have "bonus_formula t - 1 \<le> timeBonus t \<and> timeBonus t \<le> bonus_formula t"
  proof (cases "t \<le> 300000")
    case True
    define k where "k = (300000 - t) div 6000"
    define j where "j = (300000 - t) mod 6000"
    have "0 \<le> j" "j < 6000" by (simp_all add: j_def)
    then have "0 \<le> j" "j \<le> 5999" by linarith+
    then have j: "(0 :: rat) \<le> of_int j" "(of_int j :: rat) \<le> 5999"
      using of_int_window [of 0 j 5999] by simp_all
    note w = timeBonus_window [OF assms(1) True, folded k_def j_def]
    have "of_int k - 1 \<le> fl (timeRatio t * 50)" using w j by linarith
    then have "of_int (k - 1) \<le> fl (timeRatio t * 50)" by simp
    then have lo: "k - 1 \<le> timeBonus t" unfolding timeBonus_def by (simp only: le_floor_iff)
    have "fl (timeRatio t * 50) < of_int k + 1" using w j by linarith
    then have "fl (timeRatio t * 50) < of_int (k + 1)" by simp
    then have "timeBonus t < k + 1" unfolding timeBonus_def by (simp only: floor_less_iff)
    with lo show ?thesis by (simp add: bonus_formula_div [OF assms(1) True] k_def)
  next
    case False
    then show ?thesis by (simp add: timeBonus_late bonus_formula_late)
  qed
  then show "bonus_formula t - 1 \<le> timeBonus t" and "timeBonus t \<le> bonus_formula t"
    by simp_all
qed

section \<open>JSON.stringify tells arrays of integers apart\<close>

declare string_of_nat.simps [simp del]

lemma of_char_digit10: "d < 10 \<Longrightarrow> (of_char (digit10 d) :: nat) = 48 + d"
  by (simp add: digit10_def)

lemma string_of_nat_inverse:
  "foldl (\<lambda>acc c. acc * 10 + (of_char c - 48)) 0 (string_of_nat n) = n"
proof (induction n rule: string_of_nat.induct)
  case (1 n)
  show ?case
  proof (cases "n < 10")
    case True
    then show ?thesis
      by (subst string_of_nat.simps) (simp add: of_char_digit10)
  next
    case False
    then show ?thesis
      using 1 by (subst string_of_nat.simps) (simp add: of_char_digit10)
  qed
qed

lemma string_of_nat_inj: "string_of_nat m = string_of_nat n \<Longrightarrow> m = n"
  by (metis string_of_nat_inverse)

lemma string_of_nat_chars:
  "c \<in> set (string_of_nat n) \<Longrightarrow> 48 \<le> (of_char c :: nat) \<and> (of_char c :: nat) < 58"
proof (induction n rule: string_of_nat.induct)
  case (1 n)
  show ?case
  proof (cases "n < 10")
    case True
    with 1(2) show ?thesis
      by (subst (asm) string_of_nat.simps) (simp add: of_char_digit10)
  next
    case False
    with 1 show ?thesis
      by (subst (asm) (2) string_of_nat.simps) (auto simp add: of_char_digit10)
  qed
qed

lemma string_of_nat_nonempty: "string_of_nat n \<noteq> []"
  by (subst string_of_nat.simps) simp

lemma string_of_int_nonempty: "string_of_int i \<noteq> []"
  by (simp add: string_of_int_def string_of_nat_nonempty)

lemma string_of_int_no_comma: "CHR '','' \<notin> set (string_of_int i)"
  using string_of_nat_chars [of "CHR '',''"]
  by (auto simp add: string_of_int_def)

lemma string_of_nat_no_minus: "string_of_nat n \<noteq> CHR ''-'' # r"
proof
  assume "string_of_nat n = CHR ''-'' # r"
  then have "CHR ''-'' \<in> set (string_of_nat n)" by simp
  from string_of_nat_chars [OF this] show False by simp
qed

lemma string_of_int_inj:
  assumes "string_of_int i = string_of_int j"
  shows "i = j"
proof (cases "i < 0")
  case True
  show ?thesis
  proof (cases "j < 0")
    case j: True
    with True assms have "nat (- i) = nat (- j)"
      by (simp add: string_of_int_def string_of_nat_inj)
    with True j show ?thesis by simp
  next
    case False
    with True assms show ?thesis
      using string_of_nat_no_minus [of "nat j" "string_of_nat (nat (- i))"]
      by (simp add: string_of_int_def)
  qed
next
  case False
  show ?thesis
  proof (cases "j < 0")
    case True
    with False assms show ?thesis
      using string_of_nat_no_minus [of "nat i" "string_of_nat (nat (- j))"]
      by (simp add: string_of_int_def)
  next
    case j: False
    with False assms have "nat i = nat j"
      by (simp add: string_of_int_def string_of_nat_inj)
    with False j show ?thesis by simp
  qed
qed

lemma comma_split:
  assumes "CHR '','' \<notin> set x" "CHR '','' \<notin> set y"
    and "x @ CHR '','' # r = y @ CHR '','' # s"
  shows "x = y \<and> r = s"
  using assms
proof (induction x arbitrary: y)
  case Nil
  then show ?case by (cases y) auto
next
  case (Cons a x)
  then show ?case by (cases y) auto
qed

lemma no_comma_join:
  assumes "CHR '','' \<notin> set x"
  shows "x \<noteq> y @ CHR '','' # s"
  using assms by auto

lemma join_comma_nonempty:
  assumes "\<forall>x \<in> set xs. x \<noteq> []" "xs \<noteq> []"
  shows "join_comma xs \<noteq> []"
  using assms by (induction xs rule: join_comma.induct) auto

lemma join_comma_inj:
  assumes "\<forall>x \<in> set xs. x \<noteq> [] \<and> CHR '','' \<notin> set x"
    and "\<forall>y \<in> set ys. y \<noteq> [] \<and> CHR '','' \<notin> set y"
    and "join_comma xs = join_comma ys"
  shows "xs = ys"
  using assms
proof (induction xs arbitrary: ys rule: join_comma.induct)
  case 1
  then show ?case
    using join_comma_nonempty [of ys] by (cases ys) auto
next
  case (2 x)
  show ?case
  proof (cases ys rule: join_comma.cases)
    case 1
    with 2 show ?thesis by simp
  next
    case (2 y)
    with "2.prems" show ?thesis by simp
  next
    case (3 y y' ys')
    with "2.prems" show ?thesis using no_comma_join [of x y] by auto
  qed
next
  case (3 x x' xs)
  show ?case
  proof (cases ys rule: join_comma.cases)
    case 1
    with "3.prems" show ?thesis by simp
  next
    case (2 y)
    with "3.prems" show ?thesis using no_comma_join [of y x] by (auto simp del: join_comma.simps(3) simp add: join_comma.simps(3) [of x x' xs])
  next
    case c: (3 y y' ys')
    with "3.prems" have eq: "x @ CHR '','' # join_comma (x' # xs) = y @ CHR '','' # join_comma (y' # ys')"
      by simp
    have "CHR '','' \<notin> set x" "CHR '','' \<notin> set y" using "3.prems" c by auto
    from comma_split [OF this eq] have xy: "x = y" and rest: "join_comma (x' # xs) = join_comma (y' # ys')"
      by simp_all
    have "x' # xs = y' # ys'"
      by (rule "3.IH") (use "3.prems" c rest in auto)
    with xy c show ?thesis by simp
  qed
qed

lemma JSON_stringify_inj: "JSON_stringify xs = JSON_stringify ys \<longleftrightarrow> xs = ys"
proof
  assume "JSON_stringify xs = JSON_stringify ys"
  then have "join_comma (map string_of_int xs) = join_comma (map string_of_int ys)"
    by (simp add: JSON_stringify_def)
  then have "map string_of_int xs = map string_of_int ys"
    by (intro join_comma_inj) (auto simp add: string_of_int_nonempty string_of_int_no_comma)
  then show "xs = ys"
    by (simp add: inj_on_def string_of_int_inj inj_map_eq_map [of string_of_int] )
next
  assume "xs = ys"
  then show "JSON_stringify xs = JSON_stringify ys" by simp
qed

section \<open>Validating a solution\<close>

lemma validate_equal:
  "validateSolution (JsArray us) (JsArray us) t =
     Inr \<lparr>is_correct = True, score = 100 + timeBonus t, base_score = Some 100,
          time_bonus = timeBonus t, validated_seconds = Some (timeTakenSeconds t),
          validation_error = None\<rparr>"
  by (simp add: validateSolution_def)

lemma validate_different:
  assumes "length us = length cs" "us \<noteq> cs"
  shows "validateSolution (JsArray us) (JsArray cs) t =
     Inr \<lparr>is_correct = False, score = 0, base_score = None, time_bonus = 0,
          validated_seconds = None, validation_error = Some ''Puzzle arrangement is incorrect''\<rparr>"
  using assms by (simp add: validateSolution_def JSON_stringify_inj)

text \<open>
  Claim C3. For arrays of equal length, an ordering equal to the stored solution is
  correct and scores 100 plus the time bonus, and an ordering that differs in some
  position is incorrect and scores 0. The time bonus is never negative (so the score
  of a correct ordering is at least 100), it is 50 at 0 ms, 0 from 300000 ms on, and
  it never grows with the elapsed time. It is the floor of a product of doubles. For
  an elapsed time that is not a multiple of 6000 ms this is the floor of the claim's
  formula; at a multiple of 6000 ms it is the formula or one less, and it is one less
  at 126000 ms: the formula gives \<open>floor (50 * 174 / 300) = 29\<close>, while the code divides
  174 by 300 to the double just below 0.58, multiplies by 50 to the double just below
  29, and returns the bonus 28 and the score 128.
\<close>

theorem validateSolution_score:
  "(length us = length cs \<and> us = cs \<longrightarrow>
      validateSolution (JsArray us) (JsArray cs) t =
        Inr \<lparr>is_correct = True, score = 100 + timeBonus t, base_score = Some 100,
             time_bonus = timeBonus t, validated_seconds = Some (timeTakenSeconds t),
             validation_error = None\<rparr>) \<and>
   (length us = length cs \<and> (\<exists>i < length us. us ! i \<noteq> cs ! i) \<longrightarrow>
      validateSolution (JsArray us) (JsArray cs) t =
        Inr \<lparr>is_correct = False, score = 0, base_score = None, time_bonus = 0,
             validated_seconds = None, validation_error = Some ''Puzzle arrangement is incorrect''\<rparr>) \<and>
   0 \<le> timeBonus t \<and>
   timeBonus 0 = 50 \<and>
   (300000 \<le> t \<longrightarrow> timeBonus t = 0) \<and>
   (t1 \<le> t2 \<longrightarrow> timeBonus t2 \<le> timeBonus t1) \<and>
   (0 \<le> t \<and> \<not> 6000 dvd t \<longrightarrow> timeBonus t = bonus_formula t) \<and>
   (0 \<le> t \<longrightarrow> bonus_formula t - 1 \<le> timeBonus t \<and> timeBonus t \<le> bonus_formula t) \<and>
   timeBonus 126000 = 28 \<and>
   bonus_formula 126000 = 29"
proof (intro conjI impI)
  assume "length us = length cs \<and> us = cs"
  then show "validateSolution (JsArray us) (JsArray cs) t =
        Inr \<lparr>is_correct = True, score = 100 + timeBonus t, base_score = Some 100,
             time_bonus = timeBonus t, validated_seconds = Some (timeTakenSeconds t),
             validation_error = None\<rparr>"
    by (simp add: validate_equal)
next
  assume a: "length us = length cs \<and> (\<exists>i < length us. us ! i \<noteq> cs ! i)"
  then have "us \<noteq> cs" by auto
  with a show "validateSolution (JsArray us) (JsArray cs) t =
        Inr \<lparr>is_correct = False, score = 0, base_score = None, time_bonus = 0,
             validated_seconds = None, validation_error = Some ''Puzzle arrangement is incorrect''\<rparr>"
    by (simp add: validate_different)
next
  show "0 \<le> timeBonus t" by (rule timeBonus_nonneg)
  show "timeBonus 0 = 50" by (rule timeBonus_at_zero)
  show "timeBonus 126000 = 28" by (rule timeBonus_126)
  show "bonus_formula 126000 = 29"
    unfolding bonus_formula_def by (rule floor_unique) simp_all
next
  assume "0 \<le> t \<and> \<not> 6000 dvd t"
  then show "timeBonus t = bonus_formula t" by (simp add: timeBonus_off_grid)
next
  assume "0 \<le> t"
  then show "bonus_formula t - 1 \<le> timeBonus t" by (rule timeBonus_on_grid)
next
  assume "0 \<le> t"
  then show "timeBonus t \<le> bonus_formula t" by (rule timeBonus_on_grid)
next
  assume "300000 \<le> t"
  then show "timeBonus t = 0" by (rule timeBonus_late)
next
  assume "t1 \<le> t2"
  then show "timeBonus t2 \<le> timeBonus t1" by (rule timeBonus_antimono)
qed

theorem validateSolution_score_witness:
  "validateSolution (JsArray [0, 1, 2]) (JsArray [0, 1, 2]) 126000 =
     Inr \<lparr>is_correct = True, score = 128, base_score = Some 100, time_bonus = 28,
          validated_seconds = Some 126, validation_error = None\<rparr> \<and>
   validateSolution (JsArray [0, 1, 2]) (JsArray [0, 2, 1]) 126000 =
     Inr \<lparr>is_correct = False, score = 0, base_score = None, time_bonus = 0,
          validated_seconds = None, validation_error = Some ''Puzzle arrangement is incorrect''\<rparr> \<and>
   timeBonus 300000 = 0 \<and>
   timeBonus 126000 \<le> timeBonus 45000 \<and>
   timeBonus 45000 = bonus_formula 45000 \<and>
   bonus_formula 126000 - 1 \<le> timeBonus 126000 \<and>
   timeBonus 126000 < bonus_formula 126000"
proof -
  have s: "timeTakenSeconds 126000 = 126" by (simp add: timeTakenSeconds_def fl_numeral)
  have d: "\<exists>i < length [0, 1, 2 :: int]. [0, 1, 2 :: int] ! i \<noteq> [0, 2, 1] ! i"
    by (rule exI [of _ 1]) simp
  note T = validateSolution_score [where us = "[0, 1, 2]" and t = 126000]
  from T [where cs = "[0, 1, 2]"]
  have 1: "validateSolution (JsArray [0, 1, 2]) (JsArray [0, 1, 2]) 126000 =
     Inr \<lparr>is_correct = True, score = 100 + timeBonus 126000, base_score = Some 100,
          time_bonus = timeBonus 126000, validated_seconds = Some (timeTakenSeconds 126000),
          validation_error = None\<rparr>"
    and b: "timeBonus 126000 = 28"
    by simp_all
  from T [where cs = "[0, 2, 1]"] d
  have 2: "validateSolution (JsArray [0, 1, 2]) (JsArray [0, 2, 1]) 126000 =
     Inr \<lparr>is_correct = False, score = 0, base_score = None, time_bonus = 0,
          validated_seconds = None, validation_error = Some ''Puzzle arrangement is incorrect''\<rparr>"
    by simp
  from validateSolution_score [where t = 300000] have 3: "timeBonus 300000 = 0" by simp
  from validateSolution_score
    [where ?t1.0 = 45000 and ?t2.0 = 126000 and t = 0 and us = "[]" and cs = "[]"]
  have 4: "timeBonus 126000 \<le> timeBonus 45000" by simp
  from validateSolution_score [where t = 45000 and us = "[]" and cs = "[]"]
  have 5: "timeBonus 45000 = bonus_formula 45000" by simp
  from validateSolution_score [where t = 126000 and us = "[]" and cs = "[]"]
  have 6: "bonus_formula 126000 - 1 \<le> timeBonus 126000" and f: "bonus_formula 126000 = 29"
    by simp_all
  from 1 2 3 4 5 6 b f s show ?thesis by simp
qed

lemma example_index_sets: "set [0, 1 :: int] \<noteq> set [2, 3]"
proof
  assume "set [0, 1 :: int] = set [2, 3]"
  moreover have "(0::int) \<in> set [0, 1]" by simp
  ultimately have "(0::int) \<in> set [2, 3]" by (simp only:)
  then show False by simp
qed

text \<open>
  Claim C7, as stated: two arrays of the same length over different index sets make
  \<open>validateSolution\<close> throw a \<open>ValidationError\<close>. It fails: the function never looks at
  the index sets, and returns the result of an incorrect ordering.
\<close>

theorem index_set_counterexample:
  "length [0, 1 :: int] = length [2, 3 :: int] \<and> set [0, 1 :: int] \<noteq> set [2, 3] \<and>
   validateSolution (JsArray [0, 1]) (JsArray [2, 3]) 1000 =
     Inr \<lparr>is_correct = False, score = 0, base_score = None, time_bonus = 0,
          validated_seconds = None, validation_error = Some ''Puzzle arrangement is incorrect''\<rparr>"
  using example_index_sets by (simp add: validate_different del: list.set)

text \<open>
  Claim C7, amended. \<open>validateSolution\<close> throws exactly when one of its two arguments
  is not an array (\<open>Invalid solution format\<close>) or both are arrays of different lengths
  (\<open>Solution arrays must have same length\<close>), and what it throws is a
  \<open>ValidationError\<close>. For two arrays of the same length over different index sets it
  returns the result of an incorrect ordering, with score 0.
\<close>

theorem validateSolution_errors:
  "(validateSolution u c t = Inl (ValidationError ''Invalid solution format'') \<longleftrightarrow>
      (u = NotArray \<or> c = NotArray)) \<and>
   (validateSolution u c t = Inl (ValidationError ''Solution arrays must have same length'') \<longleftrightarrow>
      (\<exists>us cs. u = JsArray us \<and> c = JsArray cs \<and> length us \<noteq> length cs)) \<and>
   ((\<exists>e. validateSolution u c t = Inl e) \<longleftrightarrow>
      (u = NotArray \<or> c = NotArray \<or>
       (\<exists>us cs. u = JsArray us \<and> c = JsArray cs \<and> length us \<noteq> length cs))) \<and>
   (length us = length cs \<and> set us \<noteq> set cs \<longrightarrow>
      validateSolution (JsArray us) (JsArray cs) t =
        Inr \<lparr>is_correct = False, score = 0, base_score = None, time_bonus = 0,
             validated_seconds = None, validation_error = Some ''Puzzle arrangement is incorrect''\<rparr>)"
proof (intro conjI impI)
  show "validateSolution u c t = Inl (ValidationError ''Invalid solution format'') \<longleftrightarrow>
      (u = NotArray \<or> c = NotArray)"
    by (cases u; cases c) (auto simp add: validateSolution_def)
  show "validateSolution u c t = Inl (ValidationError ''Solution arrays must have same length'') \<longleftrightarrow>
      (\<exists>us cs. u = JsArray us \<and> c = JsArray cs \<and> length us \<noteq> length cs)"
    by (cases u; cases c) (auto simp add: validateSolution_def)
  show "(\<exists>e. validateSolution u c t = Inl e) \<longleftrightarrow>
      (u = NotArray \<or> c = NotArray \<or>
       (\<exists>us cs. u = JsArray us \<and> c = JsArray cs \<and> length us \<noteq> length cs))"
    by (cases u; cases c) (auto simp add: validateSolution_def)
next
  assume a: "length us = length cs \<and> set us \<noteq> set cs"
  then have "us \<noteq> cs" by auto
  with a show "validateSolution (JsArray us) (JsArray cs) t =
        Inr \<lparr>is_correct = False, score = 0, base_score = None, time_bonus = 0,
             validated_seconds = None, validation_error = Some ''Puzzle arrangement is incorrect''\<rparr>"
    by (simp add: validate_different)
qed

theorem validateSolution_errors_witness:
  "validateSolution NotArray (JsArray [0, 1]) 1000 = Inl (ValidationError ''Invalid solution format'') \<and>
   validateSolution (JsArray [0, 1, 2]) (JsArray [0, 1]) 1000 =
     Inl (ValidationError ''Solution arrays must have same length'') \<and>
   (length [0, 1 :: int] = length [2, 3 :: int] \<and> set [0, 1 :: int] \<noteq> set [2, 3]) \<and>
   validateSolution (JsArray [0, 1]) (JsArray [2, 3]) 1000 =
     Inr \<lparr>is_correct = False, score = 0, base_score = None, time_bonus = 0,
          validated_seconds = None, validation_error = Some ''Puzzle arrangement is incorrect''\<rparr>"
proof -
  have h: "length [0, 1 :: int] = length [2, 3 :: int] \<and> set [0, 1 :: int] \<noteq> set [2, 3]"
    using example_index_sets by (simp del: list.set)
  from validateSolution_errors [where u = NotArray and c = "JsArray [0, 1]" and t = 1000]
  have 1: "validateSolution NotArray (JsArray [0, 1]) 1000 = Inl (ValidationError ''Invalid solution format'')"
    by simp
  from validateSolution_errors [where u = "JsArray [0, 1, 2]" and c = "JsArray [0, 1]" and t = 1000]
  have 2: "validateSolution (JsArray [0, 1, 2]) (JsArray [0, 1]) 1000 =
     Inl (ValidationError ''Solution arrays must have same length'')"
    by simp
  from validateSolution_errors [where us = "[0, 1]" and cs = "[2, 3]" and t = 1000] h
  have 3: "validateSolution (JsArray [0, 1]) (JsArray [2, 3]) 1000 =
     Inr \<lparr>is_correct = False, score = 0, base_score = None, time_bonus = 0,
          validated_seconds = None, validation_error = Some ''Puzzle arrangement is incorrect''\<rparr>"
    by blast
  from 1 2 3 h show ?thesis by (simp del: list.set)
qed

end
